theory Spec2Isabelle
  imports Complex_Main "HOL-Library.Product_Lexorder"
begin

section \<open>Text primitives of the Python runtime\<close>

text \<open>
  Cell text is a Python \<open>str\<close>. It is modelled as a \<open>string\<close> whose characters are read
  as ASCII code points. The character classes below are the ASCII part of the classes the
  source relies on: \<open>\d\<close> of module \<open>re\<close>, \<open>\s\<close> of module \<open>re\<close> and \<open>str.strip\<close>
  (both use \<open>str.isspace\<close>), and the narrower C-level blank test used by \<open>float\<close>.
\<close>

definition is_digit :: "char \<Rightarrow> bool" where
  "is_digit c = (c \<in> set ''0123456789'')"

definition digit_val :: "char \<Rightarrow> nat" where
  "digit_val c = of_char c - 48"

definition is_space :: "char \<Rightarrow> bool" where
  "is_space c = (c \<in> set [CHR 0x09, CHR 0x0A, CHR 0x0B, CHR 0x0C, CHR 0x0D,
                           CHR 0x1C, CHR 0x1D, CHR 0x1E, CHR 0x1F, CHR 0x20])"

definition is_cspace :: "char \<Rightarrow> bool" where
  "is_cspace c = (c \<in> set [CHR 0x09, CHR 0x0A, CHR 0x0B, CHR 0x0C, CHR 0x0D, CHR 0x20])"

definition is_upper :: "char \<Rightarrow> bool" where
  "is_upper c = (c \<in> set ''ABCDEFGHIJKLMNOPQRSTUVWXYZ'')"

definition lower_char :: "char \<Rightarrow> char" where
  "lower_char c =
     (case map_of (zip ''ABCDEFGHIJKLMNOPQRSTUVWXYZ'' ''abcdefghijklmnopqrstuvwxyz'') c of
        Some d \<Rightarrow> d | None \<Rightarrow> c)"

definition upper_char :: "char \<Rightarrow> char" where
  "upper_char c =
     (case map_of (zip ''abcdefghijklmnopqrstuvwxyz'' ''ABCDEFGHIJKLMNOPQRSTUVWXYZ'') c of
        Some d \<Rightarrow> d | None \<Rightarrow> c)"

definition lower :: "string \<Rightarrow> string" where
  "lower s = map lower_char s"

definition upper :: "string \<Rightarrow> string" where
  "upper s = map upper_char s"

definition strip :: "string \<Rightarrow> string" where
  "strip s = rev (dropWhile is_space (rev (dropWhile is_space s)))"

definition startswith :: "string \<Rightarrow> string \<Rightarrow> bool" where
  "startswith s p = (take (length p) s = p)"

text \<open>\<open>contains sub s\<close> is Python's \<open>sub in s\<close>.\<close>

fun contains :: "string \<Rightarrow> string \<Rightarrow> bool" where
  "contains sub [] = (sub = [])"
| "contains sub (c # cs) = (startswith (c # cs) sub \<or> contains sub cs)"

text \<open>\<open>join sep xs\<close> is Python's \<open>sep.join(xs)\<close>.\<close>

fun join :: "string \<Rightarrow> string list \<Rightarrow> string" where
  "join sep [] = []"
| "join sep [x] = x"
| "join sep (x # y # ys) = x @ sep @ join sep (y # ys)"

text \<open>
  \<open>re.sub(r'(\d)\s+(\d)', r'\1\2', value)\<close>: matches are found left to right and do
  not overlap, so the second digit of a match is consumed and cannot open the next match.
\<close>

function collapse_digit_spaces :: "string \<Rightarrow> string" where
  "collapse_digit_spaces [] = []"
| "collapse_digit_spaces (c # cs) =
     (if is_digit c \<and> takeWhile is_space cs \<noteq> []
         \<and> dropWhile is_space cs \<noteq> [] \<and> is_digit (hd (dropWhile is_space cs))
      then c # hd (dropWhile is_space cs) # collapse_digit_spaces (tl (dropWhile is_space cs))
      else c # collapse_digit_spaces cs)"
  by pat_completeness auto
termination
proof (relation "measure length")
  show "wf (measure length)" by simp
next
  fix c :: char and cs :: string
  assume "is_digit c \<and> takeWhile is_space cs \<noteq> [] \<and> dropWhile is_space cs \<noteq> []
          \<and> is_digit (hd (dropWhile is_space cs))"
  have "length (dropWhile is_space cs) \<le> length cs"
    by (rule length_dropWhile_le)
  then have "length (tl (dropWhile is_space cs)) \<le> length cs"
    by simp
  then show "(tl (dropWhile is_space cs), c # cs) \<in> measure length" by simp
next
  fix c :: char and cs :: string
  show "(cs, c # cs) \<in> measure length" by simp
qed

section \<open>Number conversion of the Python runtime\<close>

text \<open>
  A Python \<open>float\<close> is modelled by the real number it stands for: no rounding and no
  bound on the magnitude. Python's \<open>inf\<close> for a literal beyond the float range and its
  \<open>OverflowError\<close> on converting an integer beyond that range are outside the model.
  Every division of the source is by a power of ten.
\<close>

definition digits_to_nat :: "string \<Rightarrow> nat" where
  "digits_to_nat ds = foldl (\<lambda>a c. 10 * a + digit_val c) 0 ds"

text \<open>
  \<open>int(s)\<close> on a string of digits and minus signs, which is all the source passes to it:
  an optional sign followed by at least one digit. \<open>None\<close> stands for \<open>ValueError\<close>.
\<close>

definition py_int :: "string \<Rightarrow> int option" where
  "py_int s =
     (case s of
        [] \<Rightarrow> None
      | c # cs \<Rightarrow>
          if c = CHR ''-'' then
            (if cs \<noteq> [] \<and> list_all is_digit cs then Some (- int (digits_to_nat cs)) else None)
          else if list_all is_digit (c # cs) then Some (int (digits_to_nat (c # cs)))
          else None)"


text \<open>
  \<open>float(s)\<close> on a decimal literal: blanks are stripped at both ends, an underscore may
  stand between two digits, then come an optional sign, digits with an optional point (at
  least one digit in all), and an optional exponent with at least one digit. \<open>None\<close>
  stands for \<open>ValueError\<close>. The spellings \<open>inf\<close>, \<open>infinity\<close> and \<open>nan\<close> hold no point,
  and the source calls \<open>float\<close> only on text that holds one, so they are not literals here.
\<close>

definition strip_c :: "string \<Rightarrow> string" where
  "strip_c s = rev (dropWhile is_cspace (rev (dropWhile is_cspace s)))"

fun underscores_ok :: "char \<Rightarrow> string \<Rightarrow> bool" where
  "underscores_ok prev [] = (prev \<noteq> CHR ''_'')"
| "underscores_ok prev (c # cs) =
     ((if c = CHR ''_'' then is_digit prev
       else if prev = CHR ''_'' then is_digit c else True)
      \<and> underscores_ok c cs)"

definition scale10 :: "real \<Rightarrow> int \<Rightarrow> real" where
  "scale10 m e = (if 0 \<le> e then m * 10 ^ nat e else m / 10 ^ nat (- e))"

definition parse_exponent :: "string \<Rightarrow> int option" where
  "parse_exponent r =
     (case r of
        [] \<Rightarrow> Some 0
      | c # x \<Rightarrow>
          if c = CHR ''e'' \<or> c = CHR ''E'' then
            (let y = (if startswith x ''-'' \<or> startswith x ''+'' then tl x else x)
             in if y \<noteq> [] \<and> list_all is_digit y
                then Some (if startswith x ''-'' then - int (digits_to_nat y)
                           else int (digits_to_nat y))
                else None)
          else None)"

definition py_float :: "string \<Rightarrow> real option" where
  "py_float s0 =
     (let s = strip_c s0 in
      if \<not> underscores_ok (CHR 0x00) s then None
      else
        let t = filter (\<lambda>c. c \<noteq> CHR ''_'') s;
            u = (if startswith t ''-'' \<or> startswith t ''+'' then tl t else t);
            ip = takeWhile is_digit u;
            r1 = dropWhile is_digit u;
            fp = (if startswith r1 ''.'' then takeWhile is_digit (tl r1) else []);
            r2 = (if startswith r1 ''.'' then dropWhile is_digit (tl r1) else r1)
        in if ip = [] \<and> fp = [] then None
           else
             (case parse_exponent r2 of
                None \<Rightarrow> None
              | Some e \<Rightarrow>
                  Some ((if startswith t ''-'' then - 1 else 1)
                        * scale10 (real (digits_to_nat (ip @ fp))) (e - int (length fp)))))"

section \<open>Numeric Normalizer (parsing.py)\<close>

text \<open>\<open>re.sub(r'[^\d\-]', '', s)\<close>: keep the digits and the minus signs.\<close>

definition keep_digits_minus :: "string \<Rightarrow> string" where
  "keep_digits_minus s = filter (\<lambda>c. is_digit c \<or> c = CHR ''-'') s"

text \<open>
  \<open>infer_decimal_placement(value_str, is_trace_element)\<close>. The branches are those of
  the source, in its order, the unreachable ones included. \<open>None\<close> is the source's \<open>None\<close>,
  returned directly or from the handler of \<open>ValueError\<close>.
\<close>

definition infer_decimal_placement :: "string \<Rightarrow> bool \<Rightarrow> real option" where
  "infer_decimal_placement value_str is_trace_element =
     (let clean_str = keep_digits_minus value_str in
      if clean_str = [] \<or> clean_str = ''-'' then None
      else
        (case py_int clean_str of
           None \<Rightarrow> None
         | Some num \<Rightarrow>
             if is_trace_element then
               (if num < 10 then Some (real_of_int num / 1000)
                else if num < 100 then Some (real_of_int num / 10000)
                else if num < 1000 then Some (real_of_int num / 10000)
                else Some (real_of_int num / 1000000))
             else if num = 0 then Some 0
             else if num < 10 then Some (real_of_int num)
             else if num < 100 then
               (if num mod 10 = 0 then Some (real_of_int num / 10)
                else if num < 30 then Some (real_of_int num / 100)
                else Some (real_of_int num / 10))
             else if num < 1000 then
               (if num < 100 then
                  (if num < 10 then Some (real_of_int num / 1000)
                   else Some (real_of_int num / 1000))
                else if num < 200 then Some (real_of_int num / 100)
                else Some (real_of_int num / 100))
             else if num < 10000 then
               (if num < 100 then Some (real_of_int num / 10000)
                else if num < 1000 then Some (real_of_int num / 10000)
                else Some (real_of_int num / 1000))
             else Some (real_of_int num / 10 ^ (length clean_str - 1))))"

text \<open>
  \<open>normalize_number(value)\<close>, in two parts: \<open>clean_number\<close> is the text preparation up to
  and including the removal of blanks between digits, returning the trace flag and the
  cleaned text; \<open>normalize_number\<close> is the whole function.
\<close>

definition clean_number :: "string \<Rightarrow> bool \<times> string" where
  "clean_number value0 =
     (let v1 = strip value0;
          is_trace = startswith v1 ''<'';
          v2 = (if is_trace then strip (tl v1) else v1);
          v3 = map (\<lambda>c. if c = CHR '','' then CHR ''.'' else c) v2;
          v4 = filter (\<lambda>c. c \<noteq> CHR ''%'') v3
      in (is_trace, collapse_digit_spaces v4))"

definition infer_from_text :: "string \<Rightarrow> bool \<Rightarrow> real option" where
  "infer_from_text v is_trace =
     (let w = keep_digits_minus v in
      if w = [] \<or> w = ''-'' then None else infer_decimal_placement w is_trace)"

definition normalize_number :: "string \<Rightarrow> real option" where
  "normalize_number value0 =
     (if value0 = [] then None
      else
        (case clean_number value0 of
           (is_trace, v) \<Rightarrow>
             if CHR ''.'' \<in> set v then
               (case py_float v of
                  Some num \<Rightarrow>
                    if num > 100 \<and> \<not> is_trace then
                      (if num > 1000 then Some (num / 1000) else Some (num / 10))
                    else Some num
                | None \<Rightarrow> infer_from_text (filter (\<lambda>c. c \<noteq> CHR ''.'') v) is_trace)
             else infer_from_text v is_trace))"


section \<open>Configuration constants (utils/config.py, parsing.py)\<close>

definition ELEMENT_SYMBOLS :: "string list" where
  "ELEMENT_SYMBOLS = [''Al'', ''V'', ''Fe'', ''C'', ''N'', ''O'', ''Y'', ''H'']"

definition COMPOSITION_UNITS :: "string list" where
  "COMPOSITION_UNITS = [''wt.%'', ''wt%'', ''%'', ''weight%'', ''mass%'']"

definition TABLE_KEYWORDS :: "string list" where
  "TABLE_KEYWORDS =
     [''composition'', ''chemical'', ''element'', ''requirement'', ''actual'', ''sample'']"

definition PRIORITY_ELEMENTS :: "string list" where
  "PRIORITY_ELEMENTS = [''Al'', ''V'', ''Fe'', ''C'', ''N'', ''O'', ''Y'', ''H'']"

text \<open>\<open>ELEMENT_ORDER.get(symbol, 999)\<close>.\<close>

definition element_order :: "string \<Rightarrow> nat" where
  "element_order symbol =
     (case map_of (map (\<lambda>(idx, elem). (elem, idx)) (enumerate 0 PRIORITY_ELEMENTS)) symbol of
        Some idx \<Rightarrow> idx
      | None \<Rightarrow> 999)"

section \<open>Value plausibility check, element identifier, unit (parsing.py)\<close>

definition is_valid_composition_value :: "real \<Rightarrow> string \<Rightarrow> bool" where
  "is_valid_composition_value v u =
     (if u \<in> set [''wt.%'', ''wt%'', ''%'', ''weight%'', ''mass%''] then
        (if v < 0 then \<bar>v\<bar> < 1 / 10 else 0 \<le> v \<and> v \<le> 100)
      else v \<ge> 0)"

text \<open>
  The correction table of \<open>extract_element_symbol\<close>; the entry for \<open>Oe\<close> maps to
  Python's \<open>None\<close>.
\<close>

definition ocr_corrections :: "(string \<times> string option) list" where
  "ocr_corrections =
     [(''Kin'', Some ''Mn''), (''kin'', Some ''Mn''), (''5'', Some ''S''), (''Oe'', None),
      (''c'', Some ''C''), (''si'', Some ''Si''), (''cr'', Some ''Cr''), (''ni'', Some ''Ni''),
      (''mo'', Some ''Mo''), (''cu'', Some ''Cu''), (''nb'', Some ''Nb''), (''al'', Some ''Al''),
      (''fe'', Some ''Fe''), (''ti'', Some ''Ti''), (''v'', Some ''V''), (''n'', Some ''N''),
      (''o'', Some ''O''), (''h'', Some ''H''), (''y'', Some ''Y'')]"

text \<open>The checks that follow the two table lookups of \<open>extract_element_symbol\<close>.\<close>

definition match_priority :: "string \<Rightarrow> string option" where
  "match_priority t =
     (if t \<in> set PRIORITY_ELEMENTS then Some t
      else
        (case find (\<lambda>symbol. upper t = upper symbol) PRIORITY_ELEMENTS of
           Some symbol \<Rightarrow> Some symbol
         | None \<Rightarrow>
             (case find (\<lambda>symbol. startswith t symbol \<or> startswith (lower t) (lower symbol))
                     PRIORITY_ELEMENTS of
                Some symbol \<Rightarrow> Some symbol
              | None \<Rightarrow>
                  find (\<lambda>symbol. contains symbol t \<or> contains (lower symbol) (lower t))
                    PRIORITY_ELEMENTS)))"

definition lookup_lower :: "string \<Rightarrow> string option" where
  "lookup_lower t =
     (case map_of ocr_corrections (lower t) of
        Some (Some corrected) \<Rightarrow>
          if corrected \<in> set PRIORITY_ELEMENTS then Some corrected else match_priority t
      | Some None \<Rightarrow> match_priority t
      | None \<Rightarrow> match_priority t)"

definition extract_element_symbol :: "string \<Rightarrow> string option" where
  "extract_element_symbol text0 =
     (let t = strip text0 in
      case map_of ocr_corrections t of
        Some (Some corrected) \<Rightarrow>
          if corrected \<in> set PRIORITY_ELEMENTS then Some corrected else lookup_lower t
      | Some None \<Rightarrow> None
      | None \<Rightarrow> lookup_lower t)"

definition extract_unit :: "string \<Rightarrow> string" where
  "extract_unit text0 =
     (case find (\<lambda>u. contains (lower u) (lower text0)) COMPOSITION_UNITS of
        Some u \<Rightarrow> u
      | None \<Rightarrow> ''wt.%'')"


section \<open>Composition Extractor (parsing.py)\<close>

record composition_record =
  element_symbol :: string
  val :: real
  unit :: string

text \<open>\<open>re.search(r'[\d,\.]+', cell)\<close>: the leftmost longest run of digits, commas and points.\<close>

definition is_num_char :: "char \<Rightarrow> bool" where
  "is_num_char c = (is_digit c \<or> c = CHR '','' \<or> c = CHR ''.'')"

definition re_search_number :: "string \<Rightarrow> string option" where
  "re_search_number s =
     (let r = dropWhile (\<lambda>c. \<not> is_num_char c) s
      in if r = [] then None else Some (takeWhile is_num_char r))"

text \<open>
  Strategy 1, the value: the candidates are the parseable cells after the first, each with
  its column index; the source sorts the plausible ones by (index, value) and takes the
  first, or else sorts all of them by (index, magnitude) and takes the first.
\<close>

definition strategy1_value :: "string \<Rightarrow> string list \<Rightarrow> real option" where
  "strategy1_value u row =
     (let candidates =
            List.map_filter
              (\<lambda>(col_idx, col). map_option (\<lambda>num. (num, col_idx + 1)) (normalize_number col))
              (enumerate 0 (tl row))
      in if candidates = [] then None
         else
           (let valid_candidates =
                  filter (\<lambda>(v, idx). is_valid_composition_value v u) candidates
            in if valid_candidates \<noteq> [] then
                 (case sort_key (\<lambda>(v, idx). (idx, v)) valid_candidates of
                    x # _ \<Rightarrow> Some (fst x) | [] \<Rightarrow> None)
               else
                 (case sort_key (\<lambda>(v, idx). (idx, \<bar>v\<bar>)) candidates of
                    x # _ \<Rightarrow> Some (fst x) | [] \<Rightarrow> None)))"

text \<open>
  Strategy 2, the value looked up for a cell that names an unseen element: a number in the
  cell itself, else the next cell, else the previous cell.
\<close>

definition pair_value :: "string list \<Rightarrow> nat \<Rightarrow> string \<Rightarrow> real option" where
  "pair_value row cell_idx cell =
     (case re_search_number cell of
        Some m \<Rightarrow> normalize_number m
      | None \<Rightarrow>
          (let v = (if cell_idx + 1 < length row then normalize_number (row ! (cell_idx + 1))
                    else None)
           in if v = None \<and> cell_idx > 0 then normalize_number (row ! (cell_idx - 1)) else v))"

text \<open>
  The loop of strategy 2 over \<open>enumerate(row)\<close>. The state is \<open>element_symbol\<close>; \<open>value\<close>
  is \<open>None\<close> on entry and after every turn that does not leave the loop.
\<close>

fun strategy2 ::
  "string set \<Rightarrow> string list \<Rightarrow> (nat \<times> string) list \<Rightarrow> string option
   \<Rightarrow> string option \<times> real option" where
  "strategy2 seen row [] es = (es, None)"
| "strategy2 seen row ((cell_idx, cell) # rest) es =
     (case extract_element_symbol cell of
        None \<Rightarrow> strategy2 seen row rest es
      | Some elem \<Rightarrow>
          if elem \<in> seen then strategy2 seen row rest es
          else
            (case pair_value row cell_idx cell of
               Some v \<Rightarrow> (Some elem, Some v)
             | None \<Rightarrow> strategy2 seen row rest (Some elem)))"

text \<open>The loop of strategy 3 over \<open>enumerate(headers)\<close>.\<close>

fun strategy3 ::
  "string set \<Rightarrow> string list \<Rightarrow> (nat \<times> string) list \<Rightarrow> string option
   \<Rightarrow> string option \<times> real option" where
  "strategy3 seen row [] es = (es, None)"
| "strategy3 seen row ((col_idx, header) # rest) es =
     (case extract_element_symbol header of
        None \<Rightarrow> strategy3 seen row rest es
      | Some elem \<Rightarrow>
          if elem \<in> seen \<or> \<not> col_idx < length row then strategy3 seen row rest es
          else
            (case normalize_number (row ! col_idx) of
               Some v \<Rightarrow> (Some elem, Some v)
             | None \<Rightarrow> strategy3 seen row rest (Some elem)))"

text \<open>The three strategies on one row: the element symbol and the value they end with.\<close>

definition strategy1 ::
  "string \<Rightarrow> string set \<Rightarrow> string list \<Rightarrow> string option \<times> real option" where
  "strategy1 u seen row =
     (if length row \<ge> 2 then
        (case extract_element_symbol (row ! 0) of
           None \<Rightarrow> (None, None)
         | Some e \<Rightarrow> if e \<in> seen then (Some e, None) else (Some e, strategy1_value u row))
      else (None, None))"

definition is_seen :: "string set \<Rightarrow> string option \<Rightarrow> bool" where
  "is_seen seen es = (case es of None \<Rightarrow> False | Some e \<Rightarrow> e \<in> seen)"

definition row_candidate ::
  "string \<Rightarrow> string list \<Rightarrow> string set \<Rightarrow> string list \<Rightarrow> string option \<times> real option" where
  "row_candidate u headers seen row =
     (let r1 = strategy1 u seen row;
          r2 = (if fst r1 = None \<or> is_seen seen (fst r1)
                then strategy2 seen row (enumerate 0 row) (fst r1) else r1);
          r3 = (if fst r2 = None \<and> length headers > 1
                then strategy3 seen row (enumerate 0 headers) (fst r2) else r2)
      in r3)"

text \<open>
  One turn of the loop over the data rows. The state is the pair of \<open>all_parsed_values\<close>
  and \<open>seen_elements\<close>.
\<close>

definition row_step ::
  "string \<Rightarrow> string list \<Rightarrow> composition_record list \<times> string set \<Rightarrow> string list
   \<Rightarrow> composition_record list \<times> string set" where
  "row_step u headers st row =
     (if row = [] \<or> list_all (\<lambda>cell. strip cell = []) row then st
      else
        (case row_candidate u headers (snd st) row of
           (Some e, Some v) \<Rightarrow>
             if e \<notin> snd st \<and> is_valid_composition_value v u
             then (fst st @ [\<lparr>element_symbol = e, val = v, unit = u\<rparr>], insert e (snd st))
             else st
         | _ \<Rightarrow> st))"

text \<open>
  The mean-based correction pass that follows the loop. The source computes
  \<open>avg_value = sum(values_list) / len(values_list)\<close> in binary floating point, and the
  rounding of the sum and of the quotient can leave that float on the other side of 20 or
  of 50 from the exact mean of the values. The computed mean is therefore a parameter of
  the model: \<open>mean vs\<close> stands for the float that the runtime computes from the list \<open>vs\<close>
  of the kept values. The branches on it are those of the source.
\<close>

definition post_correct ::
  "(real list \<Rightarrow> real) \<Rightarrow> composition_record list \<Rightarrow> composition_record list" where
  "post_correct mean recs =
     (if recs = [] then recs
      else if mean (map val recs) > 50 then map (\<lambda>item. item\<lparr>val := val item / 100\<rparr>) recs
      else if mean (map val recs) > 20 then
        map (\<lambda>item. if val item > 50 then item\<lparr>val := val item / 100\<rparr> else item) recs
      else recs)"

definition sort_by_priority :: "composition_record list \<Rightarrow> composition_record list" where
  "sort_by_priority recs = sort_key (\<lambda>x. element_order (element_symbol x)) recs"

definition is_header_row :: "string list \<Rightarrow> bool" where
  "is_header_row row =
     (let row_text = lower (join '' '' row)
      in list_ex (\<lambda>symbol. contains (lower symbol) row_text) ELEMENT_SYMBOLS
         \<or> contains ''element'' row_text)"

definition header_row_idx :: "string list list \<Rightarrow> nat" where
  "header_row_idx table_data =
     (case find (\<lambda>(i, row). is_header_row row) (enumerate 0 (take 3 table_data)) of
        Some (i, row) \<Rightarrow> i
      | None \<Rightarrow> 0)"

text \<open>The records collected by the loop, before correction and sorting.\<close>

definition collect_rows :: "string list list \<Rightarrow> composition_record list \<times> string set" where
  "collect_rows table_data =
     (let idx = header_row_idx table_data;
          headers = (if idx < length table_data then table_data ! idx else []);
          u = extract_unit (lower (join '' '' headers))
      in foldl (row_step u headers) ([], {}) (drop (idx + 1) table_data))"

definition parse_table_to_composition_data ::
  "(real list \<Rightarrow> real) \<Rightarrow> string list list \<Rightarrow> composition_record list" where
  "parse_table_to_composition_data mean table_data =
     (if table_data = [] \<or> length table_data < 2 then []
      else sort_by_priority (post_correct mean (fst (collect_rows table_data))))"

section \<open>Fallback Heuristic Extractor (parsing.py)\<close>

text \<open>\<open>re.search(r'[\d,\.]+(?:-[\d,\.]+)?', cell)\<close>.\<close>

definition re_search_range :: "string \<Rightarrow> string option" where
  "re_search_range s =
     (let r = dropWhile (\<lambda>c. \<not> is_num_char c) s
      in if r = [] then None
         else
           (let a = takeWhile is_num_char r; rest = dropWhile is_num_char r
            in case rest of
                 c # d # _ \<Rightarrow>
                   if c = CHR ''-'' \<and> is_num_char d
                   then Some (a @ CHR ''-'' # takeWhile is_num_char (tl rest))
                   else Some a
               | _ \<Rightarrow> Some a))"

text \<open>\<open>s.split(c)\<close> for a separator of one character.\<close>

fun split_on :: "char \<Rightarrow> string \<Rightarrow> string list" where
  "split_on c [] = [[]]"
| "split_on c (x # xs) =
     (if x = c then [] # split_on c xs
      else (case split_on c xs of y # ys \<Rightarrow> (x # y) # ys | [] \<Rightarrow> [[x]]))"

definition heuristic_value :: "string \<Rightarrow> real option" where
  "heuristic_value cell =
     (case re_search_range cell of
        None \<Rightarrow> None
      | Some num_str \<Rightarrow>
          if CHR ''-'' \<in> set num_str \<and> \<not> startswith num_str ''-'' then
            (let parts = split_on (CHR ''-'') num_str
             in if length parts = 2 then
                  (case normalize_number (parts ! 0) of
                     Some val1 \<Rightarrow> Some val1
                   | None \<Rightarrow> normalize_number (parts ! 1))
                else normalize_number num_str)
          else normalize_number num_str)"

definition cell_step ::
  "string \<Rightarrow> composition_record list \<times> string set \<Rightarrow> string
   \<Rightarrow> composition_record list \<times> string set" where
  "cell_step u st cell0 =
     (let cell = strip cell0 in
      if cell = [] then st
      else
        (case extract_element_symbol cell of
           None \<Rightarrow> st
         | Some e \<Rightarrow>
             if e \<in> snd st then st
             else
               (case heuristic_value cell of
                  None \<Rightarrow> st
                | Some v \<Rightarrow>
                    if is_valid_composition_value v u
                    then (fst st @ [\<lparr>element_symbol = e, val = v, unit = u\<rparr>], insert e (snd st))
                    else st)))"

definition flat_text :: "string list list \<Rightarrow> string" where
  "flat_text table_data = lower (join '' '' (map (join '' '') table_data))"

definition parse_table_simple_heuristic :: "string list list \<Rightarrow> composition_record list" where
  "parse_table_simple_heuristic table_data =
     (let u = extract_unit (flat_text table_data)
      in sort_by_priority (fst (foldl (cell_step u) ([], {}) (concat table_data))))"


section \<open>Row/Column Reconstructor and Table Classifier (table_detect.py)\<close>

text \<open>One OCR result: the dictionary built by \<open>extract_text_with_boxes\<close>.\<close>

record fragment =
  text_str :: string
  left :: int
  top_px :: int
  width :: int
  height :: int
  conf :: int

definition y_center :: "fragment \<Rightarrow> int" where
  "y_center item = top_px item + height item div 2"

text \<open>
  One turn of the grouping loop. \<open>rows\<close> is the dictionary from row anchor to the items
  of the row, as the list of its entries in insertion order, which is the order in which
  \<open>rows.keys()\<close> is searched.
\<close>

definition assign_row :: "(int \<times> fragment list) list \<Rightarrow> fragment \<Rightarrow> (int \<times> fragment list) list" where
  "assign_row rows item =
     (case find (\<lambda>row_y. \<bar>y_center item - row_y\<bar> < 25) (map fst rows) of
        Some matched_row \<Rightarrow>
          map (\<lambda>(k, items). if k = matched_row then (k, items @ [item]) else (k, items)) rows
      | None \<Rightarrow> rows @ [(y_center item, [item])])"

text \<open>
  The merging loop over the sorted items of a row; the state is \<open>row_text\<close> and
  \<open>prev_item\<close>. \<open>row_text\<close> is not empty when \<open>prev_item\<close> is set.
\<close>

fun merge_cells :: "string list \<Rightarrow> fragment option \<Rightarrow> fragment list \<Rightarrow> string list" where
  "merge_cells row_text prev_item [] = row_text"
| "merge_cells row_text prev_item (item # items) =
     merge_cells
       (case prev_item of
          None \<Rightarrow> row_text @ [text_str item]
        | Some p \<Rightarrow>
            if left item - left p - width p < 30
            then butlast row_text @ [last row_text @ text_str item]
            else row_text @ [text_str item])
       (Some item) items"

definition sorted_rows :: "fragment list \<Rightarrow> (int \<times> fragment list) list" where
  "sorted_rows ocr_results = sort_key fst (foldl assign_row [] ocr_results)"

definition row_cells :: "fragment list \<Rightarrow> string list" where
  "row_cells items = merge_cells [] None (sort_key left items)"

definition detect_table_regions :: "fragment list \<Rightarrow> string list list" where
  "detect_table_regions ocr_results =
     (if ocr_results = [] then []
      else filter (\<lambda>row_text. row_text \<noteq> [])
             (map (\<lambda>(row_y, items). row_cells items) (sorted_rows ocr_results)))"

definition keyword_matches :: "string list \<Rightarrow> string list list \<Rightarrow> nat" where
  "keyword_matches keywords table_data =
     length (filter (\<lambda>keyword. contains (lower keyword) (flat_text table_data)) keywords)"

definition element_matches :: "string list list \<Rightarrow> nat" where
  "element_matches table_data =
     length (filter (\<lambda>symbol. contains symbol (flat_text table_data)) ELEMENT_SYMBOLS)"

definition is_chemical_composition_table :: "string list list \<Rightarrow> bool" where
  "is_chemical_composition_table table_data =
     (keyword_matches TABLE_KEYWORDS table_data \<ge> 2 \<or> element_matches table_data \<ge> 3)"


section \<open>The string form of a float (Python runtime)\<close>

text \<open>
  \<open>str(v)\<close> of a float \<open>v\<close> prints the shortest string of decimal digits that reads
  back as \<open>v\<close>. A float is described here by that output of the conversion: its sign, the
  digits \<open>d1 ... dn\<close> and the position \<open>decpt\<close> of the decimal point, standing for the
  value \<open>0.d1...dn * 10 ^ decpt\<close> (zero is the digit 0 with position 1). \<open>float_str\<close> lays
  the digits out as \<open>repr\<close> does: with an exponent when \<open>decpt \<le> -4\<close> or \<open>decpt > 16\<close>,
  the exponent signed and of at least two digits, and a point only if more than one digit
  is printed; positional otherwise, with \<open>.0\<close> appended to a whole number.
  \<open>plain_char\<close> is the alphabet of the strings so produced.
\<close>

record decimal =
  negative :: bool
  digits :: "nat list"
  decpt :: int

definition digit_char :: "nat \<Rightarrow> char" where
  "digit_char k = ''0123456789'' ! k"

fun nat_str :: "nat \<Rightarrow> string" where
  "nat_str n = (if n < 10 then [digit_char n] else nat_str (n div 10) @ [digit_char (n mod 10)])"

definition nat_of_digits :: "nat list \<Rightarrow> nat" where
  "nat_of_digits ks = foldl (\<lambda>a k. 10 * a + k) 0 ks"

definition float_val :: "decimal \<Rightarrow> real" where
  "float_val d =
     (if negative d then - 1 else 1)
     * scale10 (real (nat_of_digits (digits d))) (decpt d - int (length (digits d)))"

definition exponent_str :: "int \<Rightarrow> string" where
  "exponent_str x =
     (if x < 0 then ''-'' else ''+'')
     @ (if \<bar>x\<bar> < 10 then ''0'' else '''') @ nat_str (nat \<bar>x\<bar>)"

definition float_str :: "decimal \<Rightarrow> string" where
  "float_str d =
     (let ds = map digit_char (digits d); n = int (length ds); p = decpt d
      in (if negative d then ''-'' else '''')
         @ (if p \<le> - 4 \<or> p > 16 then
              (take 1 ds @ (if n > 1 then ''.'' @ drop 1 ds else '''')
               @ ''e'' @ exponent_str (p - 1))
            else if p \<le> 0 then ''0.'' @ replicate (nat (- p)) (CHR ''0'') @ ds
            else if p < n then take (nat p) ds @ ''.'' @ drop (nat p) ds
            else ds @ replicate (nat (p - n)) (CHR ''0'') @ ''.0''))"

definition plain_char :: "char \<Rightarrow> bool" where
  "plain_char c = (c \<in> set ''0123456789.e+-'')"

section \<open>Loop invariants and sample inputs\<close>

text \<open>
  \<open>rec_ok\<close> is the plausibility check applied to a record; \<open>seen_inv\<close> relates the two
  parts of the extractors' loop state: \<open>seen_elements\<close> is the set of the symbols recorded
  so far, and no symbol is recorded twice.
\<close>

definition rec_ok :: "composition_record \<Rightarrow> bool" where
  "rec_ok r = is_valid_composition_value (val r) (unit r)"

definition seen_inv :: "composition_record list \<times> string set \<Rightarrow> bool" where
  "seen_inv st =
     (distinct (map element_symbol (fst st)) \<and> snd st = set (map element_symbol (fst st)))"

text \<open>
  \<open>exact_mean\<close> is the mean without rounding. It is the computed mean on lists whose sum
  and quotient are floats themselves, as they are for the sample inputs below, and it is
  what the parameter \<open>mean\<close> is set to when those inputs are evaluated.
\<close>

definition exact_mean :: "real list \<Rightarrow> real" where
  "exact_mean vs = sum_list vs / real (length vs)"

text \<open>
  \<open>sample_grid\<close> has a header row, two data rows with values that lack a decimal shift,
  and a third data row that names aluminium a second time. \<open>sample_cells\<close> is a grid
  without row structure, for the fallback extractor.
\<close>

definition sample_grid :: "string list list" where
  "sample_grid =
     [[''Element'', ''wt.%''], [''Al'', ''65.0''], [''V'', ''70.5''], [''Al'', ''7'']]"

definition sample_cells :: "string list list" where
  "sample_cells = [[''Al 6.5-7.0'', ''V4.1'', ''Al 3'']]"

text \<open>
  \<open>sample_fragments\<close> are five OCR results in two visual rows, listed out of order; the
  last one lies close behind another. \<open>anchored\<close> says of an entry of the row dictionary
  that its key is the vertical centre of the first item put into the row.
\<close>

definition sample_fragments :: "fragment list" where
  "sample_fragments =
     [\<lparr>text_str = ''653'', left = 200, top_px = 300, width = 40, height = 20, conf = 90\<rparr>,
      \<lparr>text_str = ''wt.%'', left = 200, top_px = 0, width = 40, height = 20, conf = 90\<rparr>,
      \<lparr>text_str = ''Al'', left = 0, top_px = 310, width = 40, height = 20, conf = 90\<rparr>,
      \<lparr>text_str = ''Element'', left = 0, top_px = 5, width = 40, height = 20, conf = 90\<rparr>,
      \<lparr>text_str = ''x'', left = 245, top_px = 300, width = 40, height = 20, conf = 90\<rparr>]"

definition anchored :: "int \<times> fragment list \<Rightarrow> bool" where
  "anchored kv = (snd kv \<noteq> [] \<and> fst kv = y_center (hd (snd kv)))"

section \<open>Evaluation rules\<close>

lemmas text_eval = is_digit_def is_space_def is_cspace_def strip_def strip_c_def startswith_def
  digits_to_nat_def digit_val_def keep_digits_minus_def py_int_def

lemmas number_eval = text_eval scale10_def parse_exponent_def py_float_def clean_number_def
  infer_from_text_def infer_decimal_placement_def normalize_number_def

section \<open>Numeric Normalizer: trace-marked text\<close>

text \<open>
  C1, as stated, fails: for the text \<open><0.001\<close> the normalizer returns the float parsed from
  the text after the marker, which is neither a marker of its own nor \<open>None\<close>.
\<close>

theorem C1_trace_text_counterexample:
  "normalize_number ''<0.001'' = Some (1 / 1000)
   \<and> py_float ''0.001'' = Some (1 / 1000)
   \<and> normalize_number ''<0.001'' \<noteq> None"
  by (simp add: number_eval)

text \<open>
  C1, amended: text that starts with the trace marker and whose remainder holds a point and
  reads as a decimal literal is normalized to the float of that literal, whatever its
  magnitude; the marker only sets a flag. The result of the normalizer is a float or
  \<open>None\<close>, there is no third outcome.
\<close>

theorem C1_trace_text_yields_parsed_float:
  assumes "s \<noteq> []" and "clean_number s = (True, v)" and "CHR ''.'' \<in> set v"
    and "py_float v = Some x"
  shows "normalize_number s = Some x"
  using assms by (simp add: normalize_number_def)

theorem C1_trace_text_yields_parsed_float_witness:
  "''<0.001'' \<noteq> [] \<and> clean_number ''<0.001'' = (True, ''0.001'')
   \<and> CHR ''.'' \<in> set ''0.001'' \<and> py_float ''0.001'' = Some (1 / 1000)
   \<and> normalize_number ''<0.001'' = Some (1 / 1000)"
proof -
  have h1: "''<0.001'' \<noteq> []" by simp
  have h2: "clean_number ''<0.001'' = (True, ''0.001'')" by (simp add: number_eval)
  have h3: "CHR ''.'' \<in> set ''0.001''" by simp
  have h4: "py_float ''0.001'' = Some (1 / 1000)" by (simp add: number_eval)
  from C1_trace_text_yields_parsed_float [OF h1 h2 h3 h4] h1 h2 h3 h4
  show ?thesis by blast
qed

section \<open>Decimal-placement inference: leading zeros\<close>

text \<open>
  C3: the source branches on the integer value of the digit string, not on the number of
  its digits, so a string with leading zeros takes the branch of a shorter string. The
  comments of the source promise \<open>005 -> 0.005\<close>, \<open>050 -> 0.050\<close>, \<open>0050 -> 0.0050\<close> and
  \<open>00050 -> 0.00050\<close>; the function returns 5.0 for each of them.
\<close>

theorem C3_leading_zero_inputs:
  "infer_decimal_placement ''005'' False = Some 5
   \<and> infer_decimal_placement ''050'' False = Some 5
   \<and> infer_decimal_placement ''0050'' False = Some 5
   \<and> infer_decimal_placement ''00050'' False = Some 5"
  by (simp add: number_eval)

section \<open>Numeric Normalizer: out-of-range correction\<close>

text \<open>
  C5, as stated, fails: the correction compares the signed value with 100, not its
  magnitude. The text \<open>-150.5\<close> is not trace-marked, holds a point and parses to a float
  of magnitude 150.5, and is returned unchanged, not divided by 10.
\<close>

theorem C5_magnitude_counterexample:
  "clean_number ''-150.5'' = (False, ''-150.5'')
   \<and> py_float ''-150.5'' = Some (- 301 / 2)
   \<and> \<bar>- 301 / 2 :: real\<bar> > 100
   \<and> normalize_number ''-150.5'' = Some (- 301 / 2)
   \<and> normalize_number ''-150.5'' \<noteq> Some ((- 301 / 2) / 10)"
  by (simp add: number_eval)

text \<open>
  C5, amended: for text without trace marker that holds a point and parses directly to a
  float \<open>x\<close>, the result is \<open>x / 1000\<close> when \<open>x > 1000\<close>, \<open>x / 10\<close> when
  \<open>100 < x \<le> 1000\<close>, and \<open>x\<close> itself otherwise, negative values of any magnitude included.
\<close>

theorem C5_out_of_range_correction:
  assumes "s \<noteq> []" and "clean_number s = (False, v)" and "CHR ''.'' \<in> set v"
    and "py_float v = Some x"
  shows "normalize_number s =
           Some (if x > 1000 then x / 1000 else if x > 100 then x / 10 else x)"
  using assms by (simp add: normalize_number_def)

theorem C5_out_of_range_correction_witness:
  "normalize_number ''1500.5'' = Some (3001 / 2000)
   \<and> normalize_number ''150.5'' = Some (301 / 20)
   \<and> normalize_number ''50.5'' = Some (101 / 2)"
proof -
  have a: "''1500.5'' \<noteq> []" "clean_number ''1500.5'' = (False, ''1500.5'')"
    "CHR ''.'' \<in> set ''1500.5''" "py_float ''1500.5'' = Some (3001 / 2)"
    by (simp_all add: number_eval)
  have b: "''150.5'' \<noteq> []" "clean_number ''150.5'' = (False, ''150.5'')"
    "CHR ''.'' \<in> set ''150.5''" "py_float ''150.5'' = Some (301 / 2)"
    by (simp_all add: number_eval)
  have c: "''50.5'' \<noteq> []" "clean_number ''50.5'' = (False, ''50.5'')"
    "CHR ''.'' \<in> set ''50.5''" "py_float ''50.5'' = Some (101 / 2)"
    by (simp_all add: number_eval)
  from C5_out_of_range_correction [OF a] C5_out_of_range_correction [OF b]
    C5_out_of_range_correction [OF c]
  show ?thesis by simp
qed

section \<open>Composition Extractor: grids of fewer than two rows\<close>

text \<open>
  C10: a grid with fewer than two rows yields no record from the primary extractor,
  whatever its cells hold.
\<close>

theorem C10_short_grid_yields_nothing:
  "length table_data < 2 \<Longrightarrow> parse_table_to_composition_data mean table_data = []"
  by (simp add: parse_table_to_composition_data_def)

theorem C10_short_grid_yields_nothing_witness:
  "length [[''Al'', ''6.5'']] < 2
   \<and> parse_table_to_composition_data exact_mean [[''Al'', ''6.5'']] = []"
proof -
  have h: "length [[''Al'', ''6.5'']] < 2" by simp
  from C10_short_grid_yields_nothing [OF h] h show ?thesis by blast
qed


section \<open>A sample grid, evaluated step by step\<close>

lemmas element_eval = text_eval lower_def lower_char_def upper_def upper_char_def
  ocr_corrections_def PRIORITY_ELEMENTS_def match_priority_def lookup_lower_def
  extract_element_symbol_def

lemma normalize_65: "normalize_number ''65.0'' = Some 65"
  by (simp add: number_eval)

lemma normalize_705: "normalize_number ''70.5'' = Some (141 / 2)"
  by (simp add: number_eval)

lemma extract_Al: "extract_element_symbol ''Al'' = Some ''Al''"
  by (simp add: element_eval)

lemma extract_V: "extract_element_symbol ''V'' = Some ''V''"
  by (simp add: element_eval)

lemma extract_7: "extract_element_symbol ''7'' = None"
  by (simp add: element_eval)

lemma sample_header: "is_header_row [''Element'', ''wt.%'']"
  by (simp add: is_header_row_def lower_def lower_char_def startswith_def)

lemma sample_header_idx: "header_row_idx ([''Element'', ''wt.%''] # rest) = 0"
  by (simp add: header_row_idx_def sample_header)

lemma sample_unit: "extract_unit (lower ''Element wt.%'') = ''wt.%''"
  by (simp add: extract_unit_def COMPOSITION_UNITS_def lower_def lower_char_def startswith_def)

lemma valid_65: "is_valid_composition_value 65 ''wt.%''"
  by (simp add: is_valid_composition_value_def)

lemma valid_705: "is_valid_composition_value (141 / 2) ''wt.%''"
  by (simp add: is_valid_composition_value_def)

lemma sample_value_Al: "strategy1_value ''wt.%'' [''Al'', ''65.0''] = Some 65"
  by (simp add: strategy1_value_def List.map_filter_simps normalize_65 valid_65)

lemma sample_value_V: "strategy1_value ''wt.%'' [''V'', ''70.5''] = Some (141 / 2)"
  by (simp add: strategy1_value_def List.map_filter_simps normalize_705 valid_705)

lemma sample_row_1:
  "row_step ''wt.%'' hs ([], {}) [''Al'', ''65.0''] =
     ([\<lparr>element_symbol = ''Al'', val = 65, unit = ''wt.%''\<rparr>], {''Al''})"
  by (simp add: row_step_def row_candidate_def strategy1_def is_seen_def extract_Al
      sample_value_Al valid_65 strip_def is_space_def)

lemma sample_row_2:
  "row_step ''wt.%'' hs ([a], {''Al''}) [''V'', ''70.5''] =
     ([a, \<lparr>element_symbol = ''V'', val = 141 / 2, unit = ''wt.%''\<rparr>], {''V'', ''Al''})"
  by (simp add: row_step_def row_candidate_def strategy1_def is_seen_def extract_V
      sample_value_V valid_705 strip_def is_space_def)

lemma sample_row_3:
  "row_step ''wt.%'' hs ([a, b], {''V'', ''Al''}) [''Al'', ''7''] = ([a, b], {''V'', ''Al''})"
  by (simp add: row_step_def row_candidate_def strategy1_def is_seen_def extract_Al
      extract_7 strip_def is_space_def)

lemma sample_collected:
  "fst (collect_rows sample_grid) =
     [\<lparr>element_symbol = ''Al'', val = 65, unit = ''wt.%''\<rparr>,
      \<lparr>element_symbol = ''V'', val = 141 / 2, unit = ''wt.%''\<rparr>]"
  by (simp add: sample_grid_def collect_rows_def Let_def sample_header_idx sample_unit
      sample_row_1 sample_row_2 sample_row_3)

lemma sample_corrected:
  "post_correct exact_mean
     [\<lparr>element_symbol = ''Al'', val = 65, unit = ''wt.%''\<rparr>,
      \<lparr>element_symbol = ''V'', val = 141 / 2, unit = ''wt.%''\<rparr>] =
     [\<lparr>element_symbol = ''Al'', val = 13 / 20, unit = ''wt.%''\<rparr>,
      \<lparr>element_symbol = ''V'', val = 141 / 200, unit = ''wt.%''\<rparr>]"
  by (simp add: post_correct_def exact_mean_def)

lemma order_Al: "element_order ''Al'' = 0"
  by (simp add: element_order_def PRIORITY_ELEMENTS_def)

lemma order_V: "element_order ''V'' = 1"
  by (simp add: element_order_def PRIORITY_ELEMENTS_def)

lemma sample_parsed:
  "parse_table_to_composition_data exact_mean sample_grid =
     [\<lparr>element_symbol = ''Al'', val = 13 / 20, unit = ''wt.%''\<rparr>,
      \<lparr>element_symbol = ''V'', val = 141 / 200, unit = ''wt.%''\<rparr>]"
proof -
  have "sample_grid \<noteq> []" and "length sample_grid = 4"
    by (simp_all add: sample_grid_def)
  then show ?thesis
    by (simp add: parse_table_to_composition_data_def sample_collected sample_corrected
        sort_by_priority_def order_Al order_V)
qed

lemma extract_Al_range: "extract_element_symbol ''Al 6.5-7.0'' = Some ''Al''"
  by (simp add: element_eval)

lemma extract_V41: "extract_element_symbol ''V4.1'' = Some ''V''"
  by (simp add: element_eval)

lemma extract_Al_3: "extract_element_symbol ''Al 3'' = Some ''Al''"
  by (simp add: element_eval)

lemma range_Al: "re_search_range ''Al 6.5-7.0'' = Some ''6.5-7.0''"
  by (simp add: re_search_range_def is_num_char_def is_digit_def)

lemma range_V: "re_search_range ''V4.1'' = Some ''4.1''"
  by (simp add: re_search_range_def is_num_char_def is_digit_def)

lemma normalize_6_5: "normalize_number ''6.5'' = Some (13 / 2)"
  by (simp add: number_eval)

lemma normalize_4_1: "normalize_number ''4.1'' = Some (41 / 10)"
  by (simp add: number_eval)

lemma heuristic_Al: "heuristic_value ''Al 6.5-7.0'' = Some (13 / 2)"
  by (simp add: heuristic_value_def range_Al startswith_def normalize_6_5)

lemma heuristic_V: "heuristic_value ''V4.1'' = Some (41 / 10)"
  by (simp add: heuristic_value_def range_V startswith_def normalize_4_1)

lemma sample_cells_unit: "extract_unit (flat_text sample_cells) = ''wt.%''"
  by (simp add: sample_cells_def flat_text_def extract_unit_def COMPOSITION_UNITS_def
      lower_def lower_char_def startswith_def)

lemma sample_cell_1:
  "cell_step ''wt.%'' ([], {}) ''Al 6.5-7.0'' =
     ([\<lparr>element_symbol = ''Al'', val = 13 / 2, unit = ''wt.%''\<rparr>], {''Al''})"
  by (simp add: cell_step_def strip_def is_space_def extract_Al_range heuristic_Al
      is_valid_composition_value_def)

lemma sample_cell_2:
  "cell_step ''wt.%'' ([a], {''Al''}) ''V4.1'' =
     ([a, \<lparr>element_symbol = ''V'', val = 41 / 10, unit = ''wt.%''\<rparr>], {''V'', ''Al''})"
  by (simp add: cell_step_def strip_def is_space_def extract_V41 heuristic_V
      is_valid_composition_value_def)

lemma sample_cell_3:
  "cell_step ''wt.%'' ([a, b], {''V'', ''Al''}) ''Al 3'' = ([a, b], {''V'', ''Al''})"
  by (simp add: cell_step_def strip_def is_space_def extract_Al_3)

lemma sample_heuristic:
  "parse_table_simple_heuristic sample_cells =
     [\<lparr>element_symbol = ''Al'', val = 13 / 2, unit = ''wt.%''\<rparr>,
      \<lparr>element_symbol = ''V'', val = 41 / 10, unit = ''wt.%''\<rparr>]"
proof -
  have "concat sample_cells = [''Al 6.5-7.0'', ''V4.1'', ''Al 3'']"
    by (simp add: sample_cells_def)
  then show ?thesis
    by (simp add: parse_table_simple_heuristic_def Let_def sample_cells_unit sample_cell_1
        sample_cell_2 sample_cell_3 sort_by_priority_def order_Al order_V)
qed

section \<open>Composition Extractor: mean-based correction\<close>

lemma post_correct_symbols:
  "map element_symbol (post_correct mean recs) = map element_symbol recs"
  by (simp add: post_correct_def)




section \<open>Extractors: every emitted value is plausible\<close>

lemma is_valid_div100:
  "is_valid_composition_value v u \<Longrightarrow> is_valid_composition_value (v / 100) u"
  by (auto simp: is_valid_composition_value_def split: if_splits)

lemma row_step_ok:
  "list_all rec_ok (fst st) \<Longrightarrow> list_all rec_ok (fst (row_step u headers st row))"
  by (auto simp: row_step_def rec_ok_def split: option.splits prod.splits)

lemma cell_step_ok:
  "list_all rec_ok (fst st) \<Longrightarrow> list_all rec_ok (fst (cell_step u st cell))"
  by (auto simp: cell_step_def rec_ok_def Let_def split: option.splits prod.splits)

lemma foldl_row_step_ok:
  "list_all rec_ok (fst st) \<Longrightarrow> list_all rec_ok (fst (foldl (row_step u headers) st rows))"
  by (induction rows arbitrary: st) (simp_all add: row_step_ok)

lemma foldl_cell_step_ok:
  "list_all rec_ok (fst st) \<Longrightarrow> list_all rec_ok (fst (foldl (cell_step u) st cells))"
  by (induction cells arbitrary: st) (simp_all add: cell_step_ok)

lemma post_correct_ok: "list_all rec_ok recs \<Longrightarrow> list_all rec_ok (post_correct mean recs)"
  by (auto simp: post_correct_def rec_ok_def list_all_iff is_valid_div100)

lemma sort_by_priority_set: "set (sort_by_priority recs) = set recs"
  by (simp add: sort_by_priority_def)

lemma parse_table_ok: "list_all rec_ok (parse_table_to_composition_data mean t)"
proof -
  have "list_all rec_ok (fst (collect_rows t))"
    unfolding collect_rows_def Let_def by (rule foldl_row_step_ok) simp
  then have "list_all rec_ok (post_correct mean (fst (collect_rows t)))"
    by (rule post_correct_ok)
  then show ?thesis
    by (simp add: parse_table_to_composition_data_def list_all_iff sort_by_priority_set)
qed

lemma simple_heuristic_ok: "list_all rec_ok (parse_table_simple_heuristic t)"
proof -
  have "list_all rec_ok
          (fst (foldl (cell_step (extract_unit (flat_text t))) ([], {}) (concat t)))"
    by (rule foldl_cell_step_ok) simp
  then show ?thesis
    by (simp add: parse_table_simple_heuristic_def list_all_iff sort_by_priority_set)
qed

text \<open>
  C6: every record in the final output of either extractor passes the plausibility check
  for its unit: for a percentage-like unit the value is between 0 and 100 or is negative
  with a magnitude below 0.1, for any other unit it is not negative. The output of the
  primary extractor is the one after the mean-based correction, whatever mean the code
  computes. (The values of both extractors are floats; they carry no trace marker.)
\<close>

theorem C6_emitted_values_plausible:
  assumes "r \<in> set (parse_table_to_composition_data mean table_data)
             \<union> set (parse_table_simple_heuristic table_data)"
  shows "is_valid_composition_value (val r) (unit r)
       \<and> (if unit r \<in> set COMPOSITION_UNITS
          then (0 \<le> val r \<and> val r \<le> 100) \<or> (val r < 0 \<and> \<bar>val r\<bar> < 1 / 10)
          else 0 \<le> val r)"
proof -
  have "rec_ok r"
    using assms parse_table_ok [of mean table_data] simple_heuristic_ok [of table_data]
    by (auto simp: list_all_iff)
  then have valid: "is_valid_composition_value (val r) (unit r)"
    by (simp add: rec_ok_def)
  then have "if unit r \<in> set COMPOSITION_UNITS
      then (0 \<le> val r \<and> val r \<le> 100) \<or> (val r < 0 \<and> \<bar>val r\<bar> < 1 / 10)
      else 0 \<le> val r"
    by (auto simp: is_valid_composition_value_def COMPOSITION_UNITS_def split: if_splits)
  with valid show ?thesis by simp
qed

theorem C6_emitted_values_plausible_witness:
  "\<lparr>element_symbol = ''Al'', val = 13 / 20, unit = ''wt.%''\<rparr>
     \<in> set (parse_table_to_composition_data exact_mean sample_grid)
       \<union> set (parse_table_simple_heuristic sample_grid)
   \<and> \<lparr>element_symbol = ''V'', val = 41 / 10, unit = ''wt.%''\<rparr>
     \<in> set (parse_table_to_composition_data exact_mean sample_cells)
       \<union> set (parse_table_simple_heuristic sample_cells)
   \<and> is_valid_composition_value (13 / 20) ''wt.%''
   \<and> is_valid_composition_value (41 / 10) ''wt.%''"
proof -
  have a: "\<lparr>element_symbol = ''Al'', val = 13 / 20, unit = ''wt.%''\<rparr>
      \<in> set (parse_table_to_composition_data exact_mean sample_grid)
        \<union> set (parse_table_simple_heuristic sample_grid)"
    by (simp add: sample_parsed)
  have b: "\<lparr>element_symbol = ''V'', val = 41 / 10, unit = ''wt.%''\<rparr>
      \<in> set (parse_table_to_composition_data exact_mean sample_cells)
        \<union> set (parse_table_simple_heuristic sample_cells)"
    by (simp add: sample_heuristic)
  from C6_emitted_values_plausible [OF a] C6_emitted_values_plausible [OF b] a b
  show ?thesis by simp
qed

section \<open>Extractors: one record per element\<close>

lemma row_step_inv: "seen_inv st \<Longrightarrow> seen_inv (row_step u headers st row)"
  by (auto simp: row_step_def seen_inv_def split: option.splits prod.splits)

lemma cell_step_inv: "seen_inv st \<Longrightarrow> seen_inv (cell_step u st cell)"
  by (auto simp: cell_step_def seen_inv_def Let_def split: option.splits prod.splits)

lemma foldl_row_step_inv: "seen_inv st \<Longrightarrow> seen_inv (foldl (row_step u headers) st rows)"
  by (induction rows arbitrary: st) (simp_all add: row_step_inv)

lemma foldl_cell_step_inv: "seen_inv st \<Longrightarrow> seen_inv (foldl (cell_step u) st cells)"
  by (induction cells arbitrary: st) (simp_all add: cell_step_inv)

lemma distinct_map_sort_key: "distinct (map f (sort_key k xs)) = distinct (map f xs)"
  by (simp add: distinct_map)

lemma row_step_keeps: "take (length (fst st)) (fst (row_step u headers st row)) = fst st"
  by (auto simp: row_step_def split: option.splits prod.splits)

lemma row_step_grows: "length (fst st) \<le> length (fst (row_step u headers st row))"
  by (auto simp: row_step_def split: option.splits prod.splits)

lemma cell_step_keeps: "take (length (fst st)) (fst (cell_step u st cell)) = fst st"
  by (auto simp: cell_step_def Let_def split: option.splits prod.splits)

lemma cell_step_grows: "length (fst st) \<le> length (fst (cell_step u st cell))"
  by (auto simp: cell_step_def Let_def split: option.splits prod.splits)

lemma foldl_row_step_keeps:
  "take (length (fst st)) (fst (foldl (row_step u headers) st rows)) = fst st"
proof (induction rows arbitrary: st)
  case Nil
  show ?case by simp
next
  case (Cons row rows)
  let ?st' = "row_step u headers st row"
  have "take (length (fst st)) (fst (foldl (row_step u headers) ?st' rows)) =
        take (length (fst st)) (take (length (fst ?st')) (fst (foldl (row_step u headers) ?st' rows)))"
    using row_step_grows [of st u headers row] by (simp add: min_def)
  also have "\<dots> = take (length (fst st)) (fst ?st')"
    by (simp only: Cons.IH)
  also have "\<dots> = fst st"
    by (rule row_step_keeps)
  finally show ?case by simp
qed

lemma foldl_cell_step_keeps:
  "take (length (fst st)) (fst (foldl (cell_step u) st cells)) = fst st"
proof (induction cells arbitrary: st)
  case Nil
  show ?case by simp
next
  case (Cons cell cells)
  let ?st' = "cell_step u st cell"
  have "take (length (fst st)) (fst (foldl (cell_step u) ?st' cells)) =
        take (length (fst st)) (take (length (fst ?st')) (fst (foldl (cell_step u) ?st' cells)))"
    using cell_step_grows [of st u cell] by (simp add: min_def)
  also have "\<dots> = take (length (fst st)) (fst ?st')"
    by (simp only: Cons.IH)
  also have "\<dots> = fst st"
    by (rule cell_step_keeps)
  finally show ?case by simp
qed

lemma parse_table_distinct:
  "distinct (map element_symbol (parse_table_to_composition_data mean t))"
proof -
  have "seen_inv (collect_rows t)"
    unfolding collect_rows_def Let_def
    by (rule foldl_row_step_inv) (simp add: seen_inv_def)
  then have "distinct (map element_symbol (fst (collect_rows t)))"
    by (simp add: seen_inv_def)
  then have "distinct (map element_symbol (post_correct mean (fst (collect_rows t))))"
    by (simp add: post_correct_symbols)
  then show ?thesis
    by (simp add: parse_table_to_composition_data_def sort_by_priority_def
        distinct_map_sort_key)
qed

lemma simple_heuristic_distinct:
  "distinct (map element_symbol (parse_table_simple_heuristic t))"
proof -
  have "seen_inv (foldl (cell_step (extract_unit (flat_text t))) ([], {}) (concat t))"
    by (rule foldl_cell_step_inv) (simp add: seen_inv_def)
  then show ?thesis
    by (simp add: parse_table_simple_heuristic_def sort_by_priority_def
        distinct_map_sort_key seen_inv_def)
qed

text \<open>
  C7: neither extractor emits two records with the same element symbol. The loops only
  append to the list of records: whatever was recorded before a run over further rows (or
  cells) is still there, in place, after it, so the first record found for an element is
  the one that is kept.
\<close>

theorem C7_one_record_per_element:
  "distinct (map element_symbol (parse_table_to_composition_data mean table_data))
   \<and> distinct (map element_symbol (parse_table_simple_heuristic table_data))
   \<and> take (length (fst st)) (fst (foldl (row_step u headers) st rows)) = fst st
   \<and> take (length (fst st)) (fst (foldl (cell_step u) st cells)) = fst st"
  by (simp only: parse_table_distinct simple_heuristic_distinct foldl_row_step_keeps
      foldl_cell_step_keeps simp_thms)

theorem C7_one_record_per_element_witness:
  "distinct (map element_symbol (parse_table_to_composition_data exact_mean sample_grid))
   \<and> parse_table_to_composition_data exact_mean sample_grid =
       [\<lparr>element_symbol = ''Al'', val = 13 / 20, unit = ''wt.%''\<rparr>,
        \<lparr>element_symbol = ''V'', val = 141 / 200, unit = ''wt.%''\<rparr>]
   \<and> distinct (map element_symbol (parse_table_simple_heuristic sample_cells))
   \<and> parse_table_simple_heuristic sample_cells =
       [\<lparr>element_symbol = ''Al'', val = 13 / 2, unit = ''wt.%''\<rparr>,
        \<lparr>element_symbol = ''V'', val = 41 / 10, unit = ''wt.%''\<rparr>]"
  using C7_one_record_per_element [where mean = exact_mean and table_data = sample_grid and st = "([], {})" and u = "''wt.%''"
      and headers = "[]" and rows = "[]" and cells = "[]"]
    C7_one_record_per_element [where mean = exact_mean and table_data = sample_cells and st = "([], {})" and u = "''wt.%''"
      and headers = "[]" and rows = "[]" and cells = "[]"]
    sample_parsed sample_heuristic
  by blast

section \<open>Row/Column Reconstructor: order of rows and cells\<close>

lemma find_None_not_key:
  assumes "find (\<lambda>row_y. \<bar>y - row_y\<bar> < 25) ks = None"
  shows "(y::int) \<notin> set ks"
proof
  assume "y \<in> set ks"
  moreover have "\<bar>y - y\<bar> < 25" by simp
  ultimately have "\<exists>k\<in>set ks. \<bar>y - k\<bar> < 25" by blast
  with assms show False by (simp add: find_None_iff)
qed

lemma assign_row_keys_matched:
  "fst \<circ> (\<lambda>(k, items). if k = m then (k, items @ [item]) else (k, items)) = fst"
  by (auto simp: fun_eq_iff)

lemma assign_row_distinct:
  assumes "distinct (map fst rows)"
  shows "distinct (map fst (assign_row rows item))"
proof (cases "find (\<lambda>row_y. \<bar>y_center item - row_y\<bar> < 25) (map fst rows)")
  case None
  then have "y_center item \<notin> set (map fst rows)"
    by (rule find_None_not_key)
  with assms None show ?thesis
    by (simp add: assign_row_def)
next
  case (Some m)
  with assms show ?thesis
    by (simp add: assign_row_def assign_row_keys_matched)
qed

lemma anchored_extend:
  "anchored kv \<Longrightarrow>
   anchored (case kv of (k, items) \<Rightarrow> if k = m then (k, items @ [item]) else (k, items))"
  by (cases kv) (simp add: anchored_def)

lemma assign_row_anchored:
  assumes "list_all anchored rows"
  shows "list_all anchored (assign_row rows item)"
proof (cases "find (\<lambda>row_y. \<bar>y_center item - row_y\<bar> < 25) (map fst rows)")
  case None
  with assms show ?thesis
    by (simp add: assign_row_def anchored_def)
next
  case (Some m)
  with assms show ?thesis
    by (simp add: assign_row_def list_all_iff anchored_extend)
qed

lemma foldl_assign_row_distinct:
  "distinct (map fst rows) \<Longrightarrow> distinct (map fst (foldl assign_row rows items))"
  by (induction items arbitrary: rows) (simp_all add: assign_row_distinct)

lemma foldl_assign_row_anchored:
  "list_all anchored rows \<Longrightarrow> list_all anchored (foldl assign_row rows items)"
  by (induction items arbitrary: rows) (simp_all add: assign_row_anchored)

lemma sorted_rows_strict: "sorted_wrt (<) (map fst (sorted_rows frs))"
proof -
  have "distinct (map fst (foldl assign_row [] frs))"
    by (rule foldl_assign_row_distinct) simp
  then have "distinct (map fst (sorted_rows frs))"
    by (simp add: sorted_rows_def distinct_map_sort_key)
  moreover have "sorted (map fst (sorted_rows frs))"
    by (simp add: sorted_rows_def)
  ultimately show ?thesis
    by (simp add: strict_sorted_iff)
qed

lemma sorted_rows_anchored: "list_all anchored (sorted_rows frs)"
proof -
  have "list_all anchored (foldl assign_row [] frs)"
    by (rule foldl_assign_row_anchored) simp
  then show ?thesis
    by (simp add: sorted_rows_def list_all_iff)
qed

lemma merge_cells_nonempty_acc: "acc \<noteq> [] \<Longrightarrow> merge_cells acc p items \<noteq> []"
  by (induction items arbitrary: acc p) (auto split: option.splits)

lemma merge_cells_nonempty: "items \<noteq> [] \<Longrightarrow> merge_cells [] None items \<noteq> []"
  by (cases items) (simp_all add: merge_cells_nonempty_acc)

lemma row_cells_nonempty: "items \<noteq> [] \<Longrightarrow> row_cells items \<noteq> []"
proof -
  assume "items \<noteq> []"
  then have "sort_key left items \<noteq> []"
    by (metis length_sort length_0_conv)
  then show ?thesis
    by (simp add: row_cells_def merge_cells_nonempty)
qed

lemma merge_cells_concat:
  "p = None \<or> acc \<noteq> [] \<Longrightarrow>
   concat (merge_cells acc p items) = concat acc @ concat (map text_str items)"
proof (induction items arbitrary: acc p)
  case Nil
  show ?case by simp
next
  case (Cons item items)
  show ?case
  proof (cases p)
    case None
    then show ?thesis using Cons.IH [of "Some item" "acc @ [text_str item]"] by simp
  next
    case (Some q)
    with Cons.prems have ne: "acc \<noteq> []" by simp
    then have glue: "concat (butlast acc @ [last acc @ text_str item]) = concat acc @ text_str item"
      by (metis append_butlast_last_id concat_append concat.simps append_Nil2 append_assoc)
    show ?thesis
      using Some ne glue Cons.IH [of "Some item" "butlast acc @ [last acc @ text_str item]"]
        Cons.IH [of "Some item" "acc @ [text_str item]"]
      by simp
  qed
qed

lemma row_cells_concat: "concat (row_cells items) = concat (map text_str (sort_key left items))"
  by (simp add: row_cells_def merge_cells_concat)

lemma detect_all_rows:
  "detect_table_regions frs = map (\<lambda>kv. row_cells (snd kv)) (sorted_rows frs)"
proof (cases "frs = []")
  case True
  then show ?thesis by (simp add: detect_table_regions_def sorted_rows_def)
next
  case False
  have "\<forall>kv \<in> set (sorted_rows frs). row_cells (snd kv) \<noteq> []"
    using sorted_rows_anchored [of frs] by (auto simp: list_all_iff anchored_def row_cells_nonempty)
  then have "filter (\<lambda>row_text. row_text \<noteq> []) (map (\<lambda>kv. row_cells (snd kv)) (sorted_rows frs))
      = map (\<lambda>kv. row_cells (snd kv)) (sorted_rows frs)"
    by (simp add: filter_id_conv)
  with False show ?thesis
    by (simp add: detect_table_regions_def case_prod_unfold)
qed

text \<open>
  C8: empty input yields the empty grid. Otherwise the grid has one row of cells for each
  entry of the row dictionary, in the order of the sorted entries, and none is dropped;
  the anchors of the sorted entries are strictly ascending, and each anchor is the
  vertical centre of the first item of its row. The cells of a row are built by the
  merging loop from the items sorted by ascending left coordinate, so the texts of the
  cells, read in order, are the texts of the items in that order.
\<close>

theorem C8_rows_and_cells_ordered:
  "detect_table_regions [] = []
   \<and> detect_table_regions ocr_results =
       map (\<lambda>kv. row_cells (snd kv)) (sorted_rows ocr_results)
   \<and> sorted_wrt (<) (map fst (sorted_rows ocr_results))
   \<and> list_all anchored (sorted_rows ocr_results)
   \<and> row_cells items = merge_cells [] None (sort_key left items)
   \<and> sorted (map left (sort_key left items))
   \<and> concat (row_cells items) = concat (map text_str (sort_key left items))"
  by (simp only: detect_all_rows [symmetric] sorted_rows_strict sorted_rows_anchored
      row_cells_concat sorted_sort_key simp_thms row_cells_def [symmetric])
     (simp add: detect_table_regions_def)

lemma sample_rows:
  "sorted_rows sample_fragments =
     [(10, [\<lparr>text_str = ''wt.%'', left = 200, top_px = 0, width = 40, height = 20, conf = 90\<rparr>,
            \<lparr>text_str = ''Element'', left = 0, top_px = 5, width = 40, height = 20, conf = 90\<rparr>]),
      (310, [\<lparr>text_str = ''653'', left = 200, top_px = 300, width = 40, height = 20, conf = 90\<rparr>,
             \<lparr>text_str = ''Al'', left = 0, top_px = 310, width = 40, height = 20, conf = 90\<rparr>,
             \<lparr>text_str = ''x'', left = 245, top_px = 300, width = 40, height = 20, conf = 90\<rparr>])]"
  by (simp add: sample_fragments_def sorted_rows_def assign_row_def y_center_def)

lemma sample_detect:
  "detect_table_regions sample_fragments = [[''Element'', ''wt.%''], [''Al'', ''653x'']]"
  by (simp add: detect_all_rows sample_rows row_cells_def)

theorem C8_rows_and_cells_ordered_witness:
  "detect_table_regions sample_fragments = [[''Element'', ''wt.%''], [''Al'', ''653x'']]
   \<and> map fst (sorted_rows sample_fragments) = [10, 310]
   \<and> sorted_wrt (<) (map fst (sorted_rows sample_fragments))
   \<and> list_all anchored (sorted_rows sample_fragments)"
proof -
  from C8_rows_and_cells_ordered [of sample_fragments "[]"]
  have "sorted_wrt (<) (map fst (sorted_rows sample_fragments))"
    and "list_all anchored (sorted_rows sample_fragments)"
    by blast+
  moreover have "map fst (sorted_rows sample_fragments) = [10, 310]"
    by (simp add: sample_rows)
  ultimately show ?thesis
    using sample_detect by blast
qed

section \<open>Table Classifier: element symbols in lower-cased text\<close>

lemma lower_char_not_upper: "\<not> is_upper (lower_char c)"
proof (cases "is_upper c")
  case True
  then show ?thesis
    unfolding is_upper_def lower_char_def by auto
next
  case False
  then have "map_of (zip ''ABCDEFGHIJKLMNOPQRSTUVWXYZ'' ''abcdefghijklmnopqrstuvwxyz'') c = None"
    unfolding is_upper_def by simp
  with False show ?thesis
    by (simp add: lower_char_def)
qed

lemma lower_no_upper: "list_all (\<lambda>c. \<not> is_upper c) (lower s)"
  by (simp add: lower_def list_all_iff lower_char_not_upper)

lemma startswith_subset: "startswith s p \<Longrightarrow> set p \<subseteq> set s"
  unfolding startswith_def by (metis set_take_subset)

lemma contains_subset: "contains sub s \<Longrightarrow> set sub \<subseteq> set s"
proof (induction s)
  case Nil
  then show ?case by simp
next
  case (Cons c cs)
  from Cons.prems have "startswith (c # cs) sub \<or> contains sub cs" by simp
  then show ?case
  proof
    assume "startswith (c # cs) sub"
    then show ?thesis by (rule startswith_subset)
  next
    assume "contains sub cs"
    then have "set sub \<subseteq> set cs" by (rule Cons.IH)
    then show ?thesis by auto
  qed
qed

lemma symbol_has_upper: "symbol \<in> set ELEMENT_SYMBOLS \<Longrightarrow> list_ex is_upper symbol"
  by (auto simp: ELEMENT_SYMBOLS_def is_upper_def)

lemma symbol_not_in_lower:
  assumes "symbol \<in> set ELEMENT_SYMBOLS"
  shows "\<not> contains symbol (lower s)"
proof
  assume "contains symbol (lower s)"
  then have "set symbol \<subseteq> set (lower s)" by (rule contains_subset)
  moreover from assms obtain c where "c \<in> set symbol" and "is_upper c"
    using symbol_has_upper by (auto simp: list_ex_iff)
  ultimately have "c \<in> set (lower s)" by blast
  with \<open>is_upper c\<close> lower_no_upper [of s] show False
    by (simp add: list_all_iff)
qed

text \<open>
  The element symbols are looked up, with their capitals, in text that has been put in
  lower case: none is ever found, and the classifier decides on the keywords alone.
\<close>

lemma element_matches_zero: "element_matches table_data = 0"
  by (simp add: element_matches_def flat_text_def symbol_not_in_lower)

lemma classifier_keywords_only:
  "is_chemical_composition_table table_data = (2 \<le> keyword_matches TABLE_KEYWORDS table_data)"
  by (simp add: is_chemical_composition_table_def element_matches_zero)

text \<open>
  C2: a grid whose cells are three of the priority element symbols and hold no keyword is
  classified negative: the flattened text is \<open>al v fe\<close>, in which neither \<open>Al\<close> nor \<open>V\<close>
  nor \<open>Fe\<close> occurs.
\<close>

theorem C2_three_symbols_rejected:
  "flat_text [[''Al'', ''V'', ''Fe'']] = ''al v fe''
   \<and> keyword_matches TABLE_KEYWORDS [[''Al'', ''V'', ''Fe'']] = 0
   \<and> element_matches [[''Al'', ''V'', ''Fe'']] = 0
   \<and> \<not> is_chemical_composition_table [[''Al'', ''V'', ''Fe'']]"
proof -
  have f: "flat_text [[''Al'', ''V'', ''Fe'']] = ''al v fe''"
    by (simp add: flat_text_def lower_def lower_char_def)
  have k: "keyword_matches TABLE_KEYWORDS [[''Al'', ''V'', ''Fe'']] = 0"
    by (simp add: keyword_matches_def f TABLE_KEYWORDS_def lower_def lower_char_def
        startswith_def)
  have e: "element_matches [[''Al'', ''V'', ''Fe'']] = 0"
    by (simp add: element_matches_def f ELEMENT_SYMBOLS_def startswith_def)
  from f k e show ?thesis
    by (simp add: is_chemical_composition_table_def)
qed

section \<open>Numeric Normalizer: the string form of a float\<close>

lemma digit_char_cases:
  assumes "(k::nat) < 10"
  shows "k \<in> {0, 1, 2, 3, 4, 5, 6, 7, 8, 9}"
  using assms by auto

lemma digit_char_is_digit: "k < 10 \<Longrightarrow> is_digit (digit_char k)"
  by (drule digit_char_cases) (auto simp: digit_char_def is_digit_def)

lemma digit_char_val: "k < 10 \<Longrightarrow> digit_val (digit_char k) = k"
  by (drule digit_char_cases) (auto simp: digit_char_def digit_val_def)

lemma is_digit_plain:
  "is_digit c \<Longrightarrow>
     \<not> is_space c \<and> \<not> is_cspace c \<and> c \<noteq> CHR ''_'' \<and> c \<noteq> CHR ''.'' \<and> c \<noteq> CHR ''e''
     \<and> c \<noteq> CHR ''E'' \<and> c \<noteq> CHR ''-'' \<and> c \<noteq> CHR ''+'' \<and> c \<noteq> CHR '','' \<and> c \<noteq> CHR ''%''
     \<and> c \<noteq> CHR ''<''"
  by (auto simp: is_digit_def is_space_def is_cspace_def)

lemma digits_to_nat_snoc: "digits_to_nat (cs @ [c]) = 10 * digits_to_nat cs + digit_val c"
  by (simp add: digits_to_nat_def)

lemma nat_of_digits_snoc: "nat_of_digits (ks @ [k]) = 10 * nat_of_digits ks + k"
  by (simp add: nat_of_digits_def)

lemma digits_to_nat_map:
  "list_all (\<lambda>k. k < 10) ks \<Longrightarrow> digits_to_nat (map digit_char ks) = nat_of_digits ks"
  by (induction ks rule: rev_induct)
     (simp_all add: digits_to_nat_snoc nat_of_digits_snoc digit_char_val,
      simp_all add: digits_to_nat_def nat_of_digits_def)

lemma map_digit_char_digits:
  "list_all (\<lambda>k. k < 10) ks \<Longrightarrow> list_all is_digit (map digit_char ks)"
  by (simp add: list_all_iff digit_char_is_digit)

declare nat_str.simps [simp del]

lemma nat_str_digits: "list_all is_digit (nat_str n)"
proof (induction n rule: nat_str.induct)
  case (1 n)
  show ?case
  proof (cases "n < 10")
    case True
    then show ?thesis by (subst nat_str.simps) (simp add: digit_char_is_digit)
  next
    case False
    with 1 show ?thesis by (subst nat_str.simps) (simp add: digit_char_is_digit)
  qed
qed

lemma nat_str_nonempty: "nat_str n \<noteq> []"
  by (subst nat_str.simps) simp

lemma nat_str_value: "digits_to_nat (nat_str n) = n"
proof (induction n rule: nat_str.induct)
  case (1 n)
  show ?case
  proof (cases "n < 10")
    case True
    then show ?thesis
      by (subst nat_str.simps) (simp add: digits_to_nat_def digit_char_val)
  next
    case False
    with 1 show ?thesis
      by (subst nat_str.simps) (simp add: digits_to_nat_snoc digit_char_val)
  qed
qed

lemma parse_exponent_str: "parse_exponent (CHR ''e'' # exponent_str x) = Some x"
proof -
  let ?pad = "(if \<bar>x\<bar> < 10 then ''0'' else []) @ nat_str (nat \<bar>x\<bar>)"
  have dig: "list_all is_digit ?pad"
    by (simp add: nat_str_digits is_digit_def)
  have ne: "?pad \<noteq> []"
    by (simp add: nat_str_nonempty)
  have val: "digits_to_nat ?pad = nat \<bar>x\<bar>"
  proof (cases "\<bar>x\<bar> < 10")
    case True
    have "digits_to_nat (CHR ''0'' # nat_str (nat \<bar>x\<bar>)) = digits_to_nat (nat_str (nat \<bar>x\<bar>))"
      by (simp add: digits_to_nat_def digit_val_def)
    with True show ?thesis by (simp add: nat_str_value)
  next
    case False
    then show ?thesis by (simp add: nat_str_value)
  qed
  have first: "\<not> startswith ?pad ''-'' \<and> \<not> startswith ?pad ''+''"
    using dig ne by (cases ?pad) (auto simp: startswith_def dest: is_digit_plain)
  show ?thesis
  proof (cases "x < 0")
    case True
    then have "exponent_str x = CHR ''-'' # ?pad"
      by (simp add: exponent_str_def)
    with True dig ne val show ?thesis
      by (simp add: parse_exponent_def startswith_def)
  next
    case False
    then have "exponent_str x = CHR ''+'' # ?pad"
      by (simp add: exponent_str_def)
    with False dig ne val show ?thesis
      by (simp add: parse_exponent_def startswith_def)
  qed
qed

lemma takeWhile_stop:
  "rest = [] \<or> \<not> is_digit (hd rest) \<Longrightarrow>
   takeWhile is_digit rest = [] \<and> dropWhile is_digit rest = rest"
  by (cases rest) auto

lemma takeWhile_digits:
  "list_all is_digit ds \<Longrightarrow> rest = [] \<or> \<not> is_digit (hd rest) \<Longrightarrow>
   takeWhile is_digit (ds @ rest) = ds \<and> dropWhile is_digit (ds @ rest) = rest"
  by (induction ds) (simp_all add: takeWhile_stop)

lemma is_digit_plain_char: "is_digit c \<Longrightarrow> plain_char c"
  by (auto simp: is_digit_def plain_char_def)

lemma plain_char_facts:
  "plain_char c \<Longrightarrow>
     \<not> is_space c \<and> \<not> is_cspace c \<and> c \<noteq> CHR ''_'' \<and> c \<noteq> CHR '','' \<and> c \<noteq> CHR ''%''
     \<and> c \<noteq> CHR ''<''"
  by (auto simp: plain_char_def is_space_def is_cspace_def)

lemma digits_plain: "list_all is_digit ds \<Longrightarrow> list_all plain_char ds"
  by (simp add: list_all_iff is_digit_plain_char)

lemma exponent_str_plain: "list_all plain_char (exponent_str x)"
  by (simp add: exponent_str_def digits_plain nat_str_digits plain_char_def)

lemma strip_c_plain:
  assumes "list_all plain_char s"
  shows "strip_c s = s"
proof -
  have drop_id: "dropWhile is_cspace u = u" if "list_all plain_char u" for u
    using that by (cases u) (auto dest: plain_char_facts)
  have "list_all plain_char (rev s)"
    using assms by (simp add: list_all_iff)
  then show ?thesis
    using assms by (simp add: strip_c_def drop_id)
qed

lemma strip_plain:
  assumes "list_all plain_char s"
  shows "strip s = s"
proof -
  have drop_id: "dropWhile is_space u = u" if "list_all plain_char u" for u
    using that by (cases u) (auto dest: plain_char_facts)
  have "list_all plain_char (rev s)"
    using assms by (simp add: list_all_iff)
  then show ?thesis
    using assms by (simp add: strip_def drop_id)
qed

lemma underscores_ok_plain:
  "list_all plain_char s \<Longrightarrow> prev \<noteq> CHR ''_'' \<Longrightarrow> underscores_ok prev s"
  by (induction s arbitrary: prev) (auto dest: plain_char_facts)

lemma filter_underscore_plain:
  "list_all plain_char s \<Longrightarrow> filter (\<lambda>c. c \<noteq> CHR ''_'') s = s"
  by (induction s) (auto dest: plain_char_facts)

lemma py_float_unsigned:
  assumes ip: "list_all is_digit ip" and fp: "list_all is_digit fp"
    and some: "ip \<noteq> [] \<or> fp \<noteq> []"
    and tail: "t = [] \<and> e = 0 \<or> t = ''e'' @ exponent_str e"
    and body: "u = ip @ ''.'' @ fp @ t"
  shows "takeWhile is_digit u = ip"
    and "dropWhile is_digit u = ''.'' @ fp @ t"
    and "takeWhile is_digit (fp @ t) = fp"
    and "dropWhile is_digit (fp @ t) = t"
    and "parse_exponent t = Some e"
    and "list_all plain_char u"
    and "\<not> startswith u ''-'' \<and> \<not> startswith u ''+''"
proof -
  have stop1: "''.'' @ fp @ t = [] \<or> \<not> is_digit (hd (''.'' @ fp @ t))"
    by (simp add: is_digit_def)
  from takeWhile_digits [OF ip stop1] body
  show "takeWhile is_digit u = ip" and "dropWhile is_digit u = ''.'' @ fp @ t"
    by simp_all
  have stop2: "t = [] \<or> \<not> is_digit (hd t)"
    using tail by (auto simp: is_digit_def)
  from takeWhile_digits [OF fp stop2]
  show "takeWhile is_digit (fp @ t) = fp" and "dropWhile is_digit (fp @ t) = t"
    by simp_all
  show "parse_exponent t = Some e"
  proof (cases "t = []")
    case True
    with tail show ?thesis by (auto simp: parse_exponent_def)
  next
    case False
    with tail have "t = CHR ''e'' # exponent_str e" by auto
    then show ?thesis by (simp only: parse_exponent_str)
  qed
  have "list_all plain_char t"
    using tail exponent_str_plain [of e] by (auto simp: plain_char_def)
  then show "list_all plain_char u"
    using body digits_plain [OF ip] digits_plain [OF fp] by (simp add: plain_char_def)
  show "\<not> startswith u ''-'' \<and> \<not> startswith u ''+''"
    using ip body by (cases ip) (auto simp: startswith_def dest: is_digit_plain)
qed

lemma startswith_single: "startswith (c # cs) [d] = (c = d)"
  by (simp add: startswith_def)

lemma py_float_shape:
  assumes ip: "list_all is_digit ip" and fp: "list_all is_digit fp"
    and some: "ip \<noteq> [] \<or> fp \<noteq> []"
    and tail: "t = [] \<and> e = 0 \<or> t = ''e'' @ exponent_str e"
  shows "py_float ((if neg then ''-'' else []) @ ip @ ''.'' @ fp @ t) =
           Some ((if neg then - 1 else 1)
                 * scale10 (real (digits_to_nat (ip @ fp))) (e - int (length fp)))"
proof -
  define u where "u = ip @ ''.'' @ fp @ t"
  note facts = py_float_unsigned [OF ip fp some tail u_def]
  have tl_dot: "tl (''.'' @ fp @ t) = fp @ t" by simp
  have dot: "startswith (''.'' @ fp @ t) ''.''" by (simp add: startswith_single)
  have fu: "filter (\<lambda>c. c \<noteq> CHR ''_'') u = u"
    by (rule filter_underscore_plain [OF facts(6)])
  have uo: "underscores_ok (CHR ''-'') u" "underscores_ok (CHR 0x00) u"
    by (rule underscores_ok_plain [OF facts(6)], simp)+
  show ?thesis
  proof (cases neg)
    case True
    have plain: "list_all plain_char (CHR ''-'' # u)"
      using facts(6) by (simp add: plain_char_def)
    have "py_float (CHR ''-'' # u) =
        Some (- 1 * scale10 (real (digits_to_nat (ip @ fp))) (e - int (length fp)))"
      unfolding py_float_def
      using some
      by (simp add: Let_def strip_c_plain [OF plain] fu uo startswith_single facts(1-5)
          tl_dot dot del: append.simps)
    with True show ?thesis by (simp add: u_def)
  next
    case False
    have "py_float u =
        Some (scale10 (real (digits_to_nat (ip @ fp))) (e - int (length fp)))"
      unfolding py_float_def
      using some facts(7)
      by (simp add: Let_def strip_c_plain [OF facts(6)] fu uo facts(1-5) tl_dot dot
          del: append.simps)
    with False show ?thesis by (simp add: u_def)
  qed
qed

lemma digits_to_nat_zeros_left:
  "digits_to_nat (replicate k (CHR ''0'') @ cs) = digits_to_nat cs"
proof -
  have "foldl (\<lambda>a c. 10 * a + digit_val c) 0 (replicate k (CHR ''0'')) = 0"
    by (induction k) (simp_all add: digit_val_def)
  then show ?thesis
    by (simp add: digits_to_nat_def)
qed

lemma digits_to_nat_zeros_right:
  "digits_to_nat (cs @ replicate k (CHR ''0'')) = digits_to_nat cs * 10 ^ k"
proof (induction k)
  case 0
  show ?case by simp
next
  case (Suc k)
  have "cs @ replicate (Suc k) (CHR ''0'') = (cs @ replicate k (CHR ''0'')) @ [CHR ''0'']"
    by (simp add: replicate_append_same)
  then show ?case
    using Suc by (simp only: digits_to_nat_snoc) (simp add: digit_val_def)
qed

lemma zeros_digits: "list_all is_digit (replicate k (CHR ''0''))"
  by (simp add: list_all_iff is_digit_def)

lemma list_all_take_drop:
  "list_all P xs \<Longrightarrow> list_all P (take m xs) \<and> list_all P (drop m xs)"
  using set_take_subset [of m xs] set_drop_subset [of m xs]
  by (auto simp: list_all_iff)

lemma float_str_plain:
  assumes "list_all (\<lambda>k. k < 10) (digits d)"
  shows "list_all plain_char (float_str d)"
proof -
  have ds: "list_all plain_char (map digit_char (digits d))"
    using assms by (intro digits_plain map_digit_char_digits)
  then have parts: "list_all plain_char (take m (map digit_char (digits d)))"
      "list_all plain_char (drop m (map digit_char (digits d)))" for m
    by (simp_all add: list_all_take_drop)
  have zs: "list_all plain_char (replicate m (CHR ''0''))" for m
    by (simp add: list_all_iff plain_char_def)
  show ?thesis
    unfolding float_str_def Let_def
    using ds parts zs exponent_str_plain by (simp add: plain_char_def)
qed

lemma collapse_plain: "list_all plain_char s \<Longrightarrow> collapse_digit_spaces s = s"
proof (induction s)
  case Nil
  show ?case by simp
next
  case (Cons c cs)
  have "takeWhile is_space cs = []"
    using Cons.prems by (cases cs) (auto dest: plain_char_facts)
  with Cons show ?case by simp
qed

lemma clean_number_plain:
  assumes "list_all plain_char s"
  shows "clean_number s = (False, s)"
proof -
  have lt: "\<not> startswith s ''<''"
    using assms by (cases s) (auto simp: startswith_def dest: plain_char_facts)
  have comma: "map (\<lambda>c. if c = CHR '','' then CHR ''.'' else c) s = s"
    using assms by (induction s) (auto dest: plain_char_facts)
  have percent: "filter (\<lambda>c. c \<noteq> CHR ''%'') s = s"
    using assms by (induction s) (auto dest: plain_char_facts)
  show ?thesis
    using lt by (simp add: clean_number_def Let_def strip_plain [OF assms] comma percent
        collapse_plain [OF assms])
qed

lemma float_str_no_dot_chars:
  "list_all is_digit cs \<Longrightarrow> CHR ''.'' \<notin> set cs"
  by (auto simp: list_all_iff dest: is_digit_plain)

lemma exponent_str_no_dot: "CHR ''.'' \<notin> set (exponent_str x)"
proof -
  have "CHR ''.'' \<notin> set (nat_str (nat \<bar>x\<bar>))"
    by (rule float_str_no_dot_chars) (rule nat_str_digits)
  then show ?thesis
    by (simp add: exponent_str_def)
qed

lemma py_float_float_str:
  assumes ne: "digits d \<noteq> []" and wf: "list_all (\<lambda>k. k < 10) (digits d)"
    and dot: "CHR ''.'' \<in> set (float_str d)"
  shows "py_float (float_str d) = Some (float_val d)"
proof -
  define ds where "ds = map digit_char (digits d)"
  define n where "n = int (length ds)"
  define p where "p = decpt d"
  define sgn where "sgn = (if negative d then ''-'' else [])"
  have dig: "list_all is_digit ds"
    unfolding ds_def using wf by (rule map_digit_char_digits)
  have val: "digits_to_nat ds = nat_of_digits (digits d)"
    unfolding ds_def using wf by (rule digits_to_nat_map)
  have len: "length (digits d) = length ds"
    by (simp add: ds_def)
  have dsne: "ds \<noteq> []"
    using ne by (simp add: ds_def)
  have fv: "float_val d =
      (if negative d then - 1 else 1) * scale10 (real (digits_to_nat ds)) (p - n)"
    by (simp add: float_val_def val len p_def n_def)
  have parts: "list_all is_digit (take m ds)" "list_all is_digit (drop m ds)" for m
    using dig by (simp_all add: list_all_take_drop)
  consider (expo) "p \<le> - 4 \<or> p > 16"
    | (small) "- 4 < p" "p \<le> 0"
    | (inner) "0 < p" "p < n" "p \<le> 16"
    | (whole) "n \<le> p" "p \<le> 16" "0 < p"
    by linarith
  then show ?thesis
  proof cases
    case expo
    then have str: "float_str d =
        sgn @ take 1 ds @ (if n > 1 then ''.'' @ drop 1 ds else [])
          @ ''e'' @ exponent_str (p - 1)"
      by (simp add: float_str_def Let_def ds_def n_def p_def sgn_def)
    have more: "n > 1"
    proof (rule ccontr)
      assume "\<not> n > 1"
      with str have "float_str d = sgn @ take 1 ds @ ''e'' @ exponent_str (p - 1)"
        by simp
      moreover have "CHR ''.'' \<notin> set (take 1 ds)"
        by (rule float_str_no_dot_chars) (rule parts)
      ultimately have "CHR ''.'' \<notin> set (float_str d)"
        using exponent_str_no_dot [of "p - 1"] by (simp add: sgn_def)
      with dot show False by simp
    qed
    have some: "take 1 ds \<noteq> [] \<or> drop 1 ds \<noteq> []"
      using dsne by simp
    have tail: "''e'' @ exponent_str (p - 1) = [] \<and> p - 1 = 0
        \<or> ''e'' @ exponent_str (p - 1) = ''e'' @ exponent_str (p - 1)"
      by simp
    have lenfp: "int (length (drop 1 ds)) = n - 1"
      using more by (simp add: n_def)
    from py_float_shape [OF parts(1) [of 1] parts(2) [of 1] some tail, of "negative d"]
    have "py_float (sgn @ take 1 ds @ ''.'' @ drop 1 ds @ ''e'' @ exponent_str (p - 1)) =
        Some ((if negative d then - 1 else 1)
              * scale10 (real (digits_to_nat ds)) (p - 1 - (n - 1)))"
      by (simp only: sgn_def append_take_drop_id lenfp)
    with more str fv show ?thesis by simp
  next
    case small
    then have str: "float_str d = sgn @ ''0'' @ ''.'' @ (replicate (nat (- p)) (CHR ''0'') @ ds) @ []"
      by (simp add: float_str_def Let_def ds_def n_def p_def sgn_def)
    have fp: "list_all is_digit (replicate (nat (- p)) (CHR ''0'') @ ds)"
      using dig zeros_digits by simp
    have ip: "list_all is_digit ''0''"
      by (simp add: is_digit_def)
    have mant: "digits_to_nat (''0'' @ replicate (nat (- p)) (CHR ''0'') @ ds) = digits_to_nat ds"
      using digits_to_nat_zeros_left [of "Suc (nat (- p))" ds] by simp
    have lenfp: "0 - int (length (replicate (nat (- p)) (CHR ''0'') @ ds)) = p - n"
      using small by (simp add: n_def)
    from py_float_shape [OF ip fp, of "[]" 0 "negative d"]
    have "py_float (sgn @ ''0'' @ ''.'' @ (replicate (nat (- p)) (CHR ''0'') @ ds) @ []) =
        Some ((if negative d then - 1 else 1) * scale10 (real (digits_to_nat ds)) (p - n))"
      by (simp only: sgn_def mant lenfp) simp
    with str fv show ?thesis by simp
  next
    case inner
    then have str: "float_str d = sgn @ take (nat p) ds @ ''.'' @ drop (nat p) ds @ []"
      by (simp add: float_str_def Let_def ds_def n_def p_def sgn_def)
    have some: "take (nat p) ds \<noteq> [] \<or> drop (nat p) ds \<noteq> []"
      using dsne by simp
    have lenfp: "0 - int (length (drop (nat p) ds)) = p - n"
      using inner by (simp add: n_def)
    from py_float_shape [OF parts(1) [of "nat p"] parts(2) [of "nat p"] some, of "[]" 0 "negative d"]
    have "py_float (sgn @ take (nat p) ds @ ''.'' @ drop (nat p) ds @ []) =
        Some ((if negative d then - 1 else 1) * scale10 (real (digits_to_nat ds)) (p - n))"
      by (simp only: sgn_def append_take_drop_id lenfp) simp
    with str fv show ?thesis by simp
  next
    case whole
    define k where "k = nat (p - n)"
    from whole have str: "float_str d = sgn @ (ds @ replicate k (CHR ''0'')) @ ''.'' @ ''0'' @ []"
      by (simp add: float_str_def Let_def ds_def n_def p_def sgn_def k_def)
    have ip: "list_all is_digit (ds @ replicate k (CHR ''0''))"
      using dig zeros_digits by simp
    have fp: "list_all is_digit ''0''"
      by (simp add: is_digit_def)
    have mant: "digits_to_nat ((ds @ replicate k (CHR ''0'')) @ ''0'') = digits_to_nat ds * 10 ^ k * 10"
      using digits_to_nat_zeros_right [of ds "Suc k"]
      by (simp add: replicate_append_same)
    have scale: "scale10 (real (digits_to_nat ds * 10 ^ k * 10)) (0 - int (length ''0''))
        = scale10 (real (digits_to_nat ds)) (p - n)"
      using whole by (simp add: scale10_def k_def)
    from py_float_shape [OF ip fp, of "[]" 0 "negative d"]
    have "py_float (sgn @ (ds @ replicate k (CHR ''0'')) @ ''.'' @ ''0'' @ []) =
        Some ((if negative d then - 1 else 1) * scale10 (real (digits_to_nat ds)) (p - n))"
      by (simp only: sgn_def mant scale) simp
    with str fv show ?thesis by simp
  qed
qed

lemmas float_str_eval = float_str_def exponent_str_def digit_char_def float_val_def
  nat_of_digits_def scale10_def nat_str.simps

text \<open>
  C9, as stated, fails. The float 1e-05 passes the plausibility check for \<open>wt.%\<close>; its
  string form \<open>1e-05\<close> holds no point, the digits and the minus sign that remain,
  \<open>1-05\<close>, are not an integer, and the normalizer returns \<open>None\<close>. Under a unit that is
  not percentage-like, 150.0 passes the check and is normalized to 15.0.
\<close>

theorem C9_string_form_counterexample:
  "is_valid_composition_value
     (float_val \<lparr>negative = False, digits = [1], decpt = - 4\<rparr>) ''wt.%''
   \<and> float_val \<lparr>negative = False, digits = [1], decpt = - 4\<rparr> = 1 / 100000
   \<and> float_str \<lparr>negative = False, digits = [1], decpt = - 4\<rparr> = ''1e-05''
   \<and> normalize_number (float_str \<lparr>negative = False, digits = [1], decpt = - 4\<rparr>) = None
   \<and> is_valid_composition_value
       (float_val \<lparr>negative = False, digits = [1, 5], decpt = 3\<rparr>) ''ppm''
   \<and> float_val \<lparr>negative = False, digits = [1, 5], decpt = 3\<rparr> = 150
   \<and> float_str \<lparr>negative = False, digits = [1, 5], decpt = 3\<rparr> = ''150.0''
   \<and> normalize_number (float_str \<lparr>negative = False, digits = [1, 5], decpt = 3\<rparr>)
       = Some 15"
proof -
  have s1: "float_str \<lparr>negative = False, digits = [1], decpt = - 4\<rparr> = ''1e-05''"
    by (simp add: float_str_eval)
  have s2: "float_str \<lparr>negative = False, digits = [1, 5], decpt = 3\<rparr> = ''150.0''"
    by (simp add: float_str_eval)
  have v1: "float_val \<lparr>negative = False, digits = [1], decpt = - 4\<rparr> = 1 / 100000"
    by (simp add: float_str_eval)
  have v2: "float_val \<lparr>negative = False, digits = [1, 5], decpt = 3\<rparr> = 150"
    by (simp add: float_str_eval)
  have n1: "normalize_number (float_str \<lparr>negative = False, digits = [1], decpt = - 4\<rparr>) = None"
    unfolding s1 by (simp add: number_eval)
  have n2: "normalize_number (float_str \<lparr>negative = False, digits = [1, 5], decpt = 3\<rparr>)
      = Some 15"
    unfolding s2 by (simp add: number_eval)
  have p1: "is_valid_composition_value
      (float_val \<lparr>negative = False, digits = [1], decpt = - 4\<rparr>) ''wt.%''"
    unfolding v1 by (simp add: is_valid_composition_value_def)
  have p2: "is_valid_composition_value
      (float_val \<lparr>negative = False, digits = [1, 5], decpt = 3\<rparr>) ''ppm''"
    unfolding v2 by (simp add: is_valid_composition_value_def)
  from p1 v1 s1 n1 p2 v2 s2 n2 show ?thesis by blast
qed

text \<open>
  C9, amended: for every float that passes the plausibility check for a percentage-like
  unit and whose string form holds a decimal point, the normalizer applied to the string
  form returns the float itself, hence a value within 1e-6 of it.
\<close>

theorem C9_normalizer_reproduces_dotted_string:
  assumes ne: "digits d \<noteq> []" and wf: "list_all (\<lambda>k. k < 10) (digits d)"
    and dot: "CHR ''.'' \<in> set (float_str d)"
    and valid: "is_valid_composition_value (float_val d) u"
    and percent: "u \<in> set COMPOSITION_UNITS"
  shows "normalize_number (float_str d) = Some (float_val d)
       \<and> (\<exists>r. normalize_number (float_str d) = Some r \<and> \<bar>r - float_val d\<bar> \<le> 1 / 10 ^ 6)"
proof -
  have small: "float_val d \<le> 100"
    using valid percent
    by (auto simp: is_valid_composition_value_def COMPOSITION_UNITS_def split: if_splits)
  have plain: "list_all plain_char (float_str d)"
    using wf by (rule float_str_plain)
  have clean: "clean_number (float_str d) = (False, float_str d)"
    using plain by (rule clean_number_plain)
  have parse: "py_float (float_str d) = Some (float_val d)"
    using ne wf dot by (rule py_float_float_str)
  have nonempty: "float_str d \<noteq> []"
    using dot by auto
  have "normalize_number (float_str d) = Some (float_val d)"
    using small dot nonempty by (simp add: normalize_number_def clean parse)
  then show ?thesis by simp
qed

theorem C9_normalizer_reproduces_dotted_string_witness:
  "float_str \<lparr>negative = False, digits = [6, 5, 3], decpt = 1\<rparr> = ''6.53''
   \<and> float_val \<lparr>negative = False, digits = [6, 5, 3], decpt = 1\<rparr> = 653 / 100
   \<and> is_valid_composition_value (653 / 100) ''wt.%''
   \<and> normalize_number ''6.53'' = Some (653 / 100)
   \<and> float_str \<lparr>negative = False, digits = [1, 2, 5], decpt = - 6\<rparr> = ''1.25e-07''
   \<and> float_val \<lparr>negative = False, digits = [1, 2, 5], decpt = - 6\<rparr> = 1 / 8000000
   \<and> normalize_number ''1.25e-07'' = Some (1 / 8000000)"
proof -
  let ?a = "\<lparr>negative = False, digits = [6, 5, 3], decpt = 1\<rparr>"
  let ?b = "\<lparr>negative = False, digits = [1, 2, 5], decpt = - 6\<rparr>"
  have sa: "float_str ?a = ''6.53''" and sb: "float_str ?b = ''1.25e-07''"
    by (simp_all add: float_str_eval)
  have va: "float_val ?a = 653 / 100" and vb: "float_val ?b = 1 / 8000000"
    by (simp_all add: float_str_eval)
  have wa: "digits ?a \<noteq> []" "list_all (\<lambda>k. k < 10) (digits ?a)"
    and wb: "digits ?b \<noteq> []" "list_all (\<lambda>k. k < 10) (digits ?b)"
    by simp_all
  have da: "CHR ''.'' \<in> set (float_str ?a)" and db: "CHR ''.'' \<in> set (float_str ?b)"
    unfolding sa sb by simp_all
  have pa: "is_valid_composition_value (float_val ?a) ''wt.%''"
    and pb: "is_valid_composition_value (float_val ?b) ''wt.%''"
    unfolding va vb by (simp_all add: is_valid_composition_value_def)
  have u: "''wt.%'' \<in> set COMPOSITION_UNITS"
    by (simp add: COMPOSITION_UNITS_def)
  from C9_normalizer_reproduces_dotted_string [OF wa da pa u]
  have ra: "normalize_number ''6.53'' = Some (653 / 100)"
    unfolding sa va by blast
  from C9_normalizer_reproduces_dotted_string [OF wb db pb u]
  have rb: "normalize_number ''1.25e-07'' = Some (1 / 8000000)"
    unfolding sb vb by blast
  from pa have pa': "is_valid_composition_value (653 / 100) ''wt.%''"
    unfolding va .
  from sa sb va vb ra rb pa' show ?thesis by blast
qed

end
